theory Spec2Isabelle
  imports Complex_Main "HOL-Library.Char_ord" "HOL-Library.List_Lexorder"
begin

section \<open>ProofSnap: upload queue, storage and capture, embedded from the TypeScript\<close>

text \<open>
  Conventions of the embedding.
  \<^item> A JavaScript string is a \<open>string\<close>: the list of the bytes of its UTF-8 encoding.
  \<^item> A JavaScript number is a \<open>number\<close> (a real). The translated code stores numbers,
    passes them on, compares mouse distances with 10 and rounds them; printing a number
    (\<open>JSON.stringify\<close>) is a parameter of the functions that print.
  \<^item> An optional property is an \<open>option\<close>; \<open>undefined\<close> is \<open>None\<close>.
  \<^item> An \<open>async\<close> method is a state transformer. A method runs without interruption up
    to the network request of an upload; what follows the request is a second transformer,
    applied when the request settles. Awaits on the two stores do not interleave with other
    calls in this model, and the stores do not fail. The call of \<open>restoreQueue\<close> that
    the constructor does not wait for is kept apart: it finishes in a step of its own, which
    other calls may precede.
\<close>

type_synonym number = real

subsection \<open>Assets (the records built in the service worker)\<close>

datatype AssetStatus = Draft | Uploading | Uploaded | Failed

record GpsLocation =
  latitude :: number
  longitude :: number
  accuracy :: number
  timestamp :: number

record SourceWebsite =
  url :: string
  title :: string

record AssetMetadata =
  uploadedAt :: "string option"
  width :: "number option"
  height :: "number option"
  captureMode :: "string option"
  caption :: "string option"
  tag :: "string option"
  error :: "string option"
  errorType :: "string option"
  cid :: "string option"
  nid :: "string option"
  uploadProgress :: "number option"

record Asset =
  id' :: string
  uri :: string
  mimeType :: string
  createdAt :: number
  status :: AssetStatus
  metadata :: AssetMetadata
  gpsLocation :: "GpsLocation option"
  sourceWebsite :: "SourceWebsite option"

subsection \<open>What the upload request settles with\<close>

text \<open>
  \<open>resultCid\<close>, \<open>resultNid\<close>: \<open>result.cid\<close>, \<open>result.nid\<close> of the response.
  \<open>dataErrorType\<close>: \<open>error?.data?.error?.type\<close>; \<open>message\<close>: \<open>error?.message\<close>.
\<close>

record UploadResult =
  resultCid :: "string option"
  resultNid :: "string option"

record UploadError =
  dataErrorType :: "string option"
  message :: "string option"

datatype Settlement = Resolved UploadResult | Rejected UploadError

subsection \<open>The two stores and the observable effects\<close>

text \<open>
  \<open>LocalStorage\<close> is \<open>chrome.storage.local\<close>, restricted to the keys read and written
  here. The ID list is written with \<open>JSON.stringify\<close> and read back with \<open>JSON.parse\<close>,
  which is the identity on arrays of strings, so the list itself is kept.
\<close>

record LocalStorage =
  upload_queue :: "string list option"
  insufficient_credits_dismissed :: "bool option"
  user_settings :: "string option"

text \<open>
  Every call that leaves the engine is appended to a trace, in program order: the writes to
  the two stores and the two message broadcasts.
\<close>

datatype Effect =
    UpdateAsset string AssetStatus AssetMetadata
  | DeleteAsset string
  | SetUploadQueueIds "string list"
  | ClearDismissed
  | UPLOAD_PROGRESS string number AssetStatus "string option"
  | UPLOAD_COMPLETE string

text \<open>
  The fields of \<open>UploadService\<close>, the two stores it was constructed with, the trace, and
  the two calls that can be suspended. \<open>inFlight\<close>: the local variable \<open>asset\<close> of the
  \<open>processQueue\<close> call that is suspended on the network request. \<open>restoring\<close>: the
  local variable \<open>queueIds\<close> of the \<open>restoreQueue\<close> call that the constructor started
  and did not wait for, until that call has finished.
\<close>

record UploadService =
  uploadQueue :: "Asset list"
  isUploading :: bool
  isPaused :: bool
  inFlight :: "Asset option"
  assetStorage :: "string \<rightharpoonup> Asset"
  metadataStorage :: LocalStorage
  trace :: "Effect list"
  restoring :: "string list option"

subsection \<open>The blob store\<close>

text \<open>
  Modelled from the spec: \<open>IndexedDBService\<close> is not among the sources. The spec gives it
  get-by-id, put, partial-update and delete on a collection keyed by asset ID. The partial
  update here overwrites status and metadata of a stored asset and leaves the store alone
  when the ID is absent.
\<close>

definition getAsset :: "string \<Rightarrow> UploadService \<Rightarrow> Asset option" where
  "getAsset i s = assetStorage s i"

definition updateAsset :: "string \<Rightarrow> AssetStatus \<Rightarrow> AssetMetadata \<Rightarrow> UploadService \<Rightarrow> UploadService" where
  "updateAsset i st m s =
     s\<lparr>assetStorage :=
          (case assetStorage s i of
             None \<Rightarrow> assetStorage s
           | Some a \<Rightarrow> (assetStorage s)(i \<mapsto> a\<lparr>status := st, metadata := m\<rparr>)),
        trace := trace s @ [UpdateAsset i st m]\<rparr>"

definition deleteAsset :: "string \<Rightarrow> UploadService \<Rightarrow> UploadService" where
  "deleteAsset i s =
     s\<lparr>assetStorage := (assetStorage s)(i := None), trace := trace s @ [DeleteAsset i]\<rparr>"

subsection \<open>StorageService: the queue IDs and the dismissal flag\<close>

definition setUploadQueueIds :: "string list \<Rightarrow> UploadService \<Rightarrow> UploadService" where
  "setUploadQueueIds assetIds s =
     s\<lparr>metadataStorage := (metadataStorage s)\<lparr>upload_queue := Some assetIds\<rparr>,
        trace := trace s @ [SetUploadQueueIds assetIds]\<rparr>"

definition getUploadQueueIds :: "LocalStorage \<Rightarrow> string list" where
  "getUploadQueueIds st = (case upload_queue st of Some ids \<Rightarrow> ids | None \<Rightarrow> [])"

definition hasInsufficientCreditsNotificationDismissed :: "LocalStorage \<Rightarrow> bool" where
  "hasInsufficientCreditsNotificationDismissed st = (insufficient_credits_dismissed st = Some True)"

definition clearInsufficientCreditsNotificationDismissed :: "UploadService \<Rightarrow> UploadService" where
  "clearInsufficientCreditsNotificationDismissed s =
     s\<lparr>metadataStorage := (metadataStorage s)\<lparr>insufficient_credits_dismissed := None\<rparr>,
        trace := trace s @ [ClearDismissed]\<rparr>"

subsection \<open>UploadService\<close>

definition emitProgress :: "string \<Rightarrow> number \<Rightarrow> AssetStatus \<Rightarrow> string option \<Rightarrow> UploadService \<Rightarrow> UploadService" where
  "emitProgress i p st e s = s\<lparr>trace := trace s @ [UPLOAD_PROGRESS i p st e]\<rparr>"

definition emitCompletion :: "string \<Rightarrow> UploadService \<Rightarrow> UploadService" where
  "emitCompletion i s = s\<lparr>trace := trace s @ [UPLOAD_COMPLETE i]\<rparr>"

definition saveQueue :: "UploadService \<Rightarrow> UploadService" where
  "saveQueue s = setUploadQueueIds (map id' (uploadQueue s)) s"

text \<open>A string property is truthy when it is present and not empty.\<close>

definition truthy :: "string option \<Rightarrow> bool" where
  "truthy v = (case v of None \<Rightarrow> False | Some x \<Rightarrow> x \<noteq> [])"

text \<open>The asset as \<open>updateAssetStatusToUploading\<close> leaves it: the status is set and the
  error fields of an earlier attempt are deleted when they are truthy.\<close>

definition markedUploading :: "Asset \<Rightarrow> Asset" where
  "markedUploading asset =
     (let m0 = metadata asset;
          m1 = (if truthy (error m0) then m0\<lparr>error := None\<rparr> else m0);
          m2 = (if truthy (errorType m1) then m1\<lparr>errorType := None\<rparr> else m1)
      in asset\<lparr>status := Uploading, metadata := m2\<rparr>)"

definition updateAssetStatusToUploading :: "Asset \<Rightarrow> UploadService \<Rightarrow> Asset \<times> UploadService" where
  "updateAssetStatusToUploading asset s =
     (let asset' = markedUploading asset
      in (asset', emitProgress (id' asset') 0 Uploading None
                    (updateAsset (id' asset') Uploading (metadata asset') s)))"

text \<open>
  \<open>uploadAsset\<close> up to the request: the status update, then the form data and the POST,
  which leave the engine suspended with the asset in flight. The interval timer of
  \<open>startProgressSimulation\<close>, which emits made-up progress while the request is pending,
  is left out, and with it the \<open>uploadProgress\<close> values it writes into the asset.
\<close>

definition uploadAsset_request :: "Asset \<Rightarrow> UploadService \<Rightarrow> UploadService" where
  "uploadAsset_request asset s =
     (case updateAssetStatusToUploading asset s of (asset', s') \<Rightarrow> s'\<lparr>inFlight := Some asset'\<rparr>)"

text \<open>
  \<open>processQueue\<close> up to the request. The second case of the match is the source's
  \<open>if (!asset)\<close> after \<open>shift()\<close>.
\<close>

definition processQueue :: "UploadService \<Rightarrow> UploadService" where
  "processQueue s =
     (if isUploading s \<or> isPaused s \<or> length (uploadQueue s) = 0 then s
      else (case uploadQueue (s\<lparr>isUploading := True\<rparr>) of
              asset # rest \<Rightarrow> uploadAsset_request asset (s\<lparr>isUploading := True, uploadQueue := rest\<rparr>)
            | [] \<Rightarrow> s\<lparr>isUploading := False\<rparr>))"

definition setPaused :: "bool \<Rightarrow> UploadService \<Rightarrow> UploadService" where
  "setPaused paused s =
     (let s' = s\<lparr>isPaused := paused\<rparr> in if \<not> paused then processQueue s' else s')"

definition maybeUnpauseForManualRetry :: "bool \<Rightarrow> UploadService \<Rightarrow> UploadService" where
  "maybeUnpauseForManualRetry isManualRetry s =
     (if isManualRetry \<and> isPaused s then setPaused False s else s)"

definition addToQueue :: "Asset \<Rightarrow> bool \<Rightarrow> UploadService \<Rightarrow> UploadService" where
  "addToQueue asset isManualRetry s =
     (case find (\<lambda>a. id' a = id' asset) (uploadQueue s) of
        Some exists \<Rightarrow> s
      | None \<Rightarrow>
          processQueue
            (maybeUnpauseForManualRetry isManualRetry
              (saveQueue (s\<lparr>uploadQueue := uploadQueue s @ [asset]\<rparr>))))"

text \<open>The loop of \<open>addMultipleToQueue\<close>: the queue and \<open>addedCount\<close>.\<close>

fun pushMissing :: "Asset list \<Rightarrow> Asset list \<times> nat \<Rightarrow> Asset list \<times> nat" where
  "pushMissing [] (q, addedCount) = (q, addedCount)"
| "pushMissing (asset # assets) (q, addedCount) =
     (case find (\<lambda>a. id' a = id' asset) q of
        None \<Rightarrow> pushMissing assets (q @ [asset], addedCount + 1)
      | Some exists \<Rightarrow> pushMissing assets (q, addedCount))"

definition addMultipleToQueue :: "Asset list \<Rightarrow> bool \<Rightarrow> UploadService \<Rightarrow> UploadService" where
  "addMultipleToQueue assets isManualRetry s =
     (case pushMissing assets (uploadQueue s, 0) of
        (q, addedCount) \<Rightarrow>
          (let s1 = s\<lparr>uploadQueue := q\<rparr>
           in if addedCount > 0
              then processQueue (maybeUnpauseForManualRetry isManualRetry (saveQueue s1))
              else s1))"

definition removeFromQueue :: "string \<Rightarrow> UploadService \<Rightarrow> UploadService" where
  "removeFromQueue assetId s =
     saveQueue (s\<lparr>uploadQueue := filter (\<lambda>a. id' a \<noteq> assetId) (uploadQueue s)\<rparr>)"

subsection \<open>Settling an upload\<close>

definition handleUploadSuccess :: "Asset \<Rightarrow> UploadResult \<Rightarrow> string \<Rightarrow> UploadService \<Rightarrow> UploadService" where
  "handleUploadSuccess asset result now s =
     (let m = (metadata asset)\<lparr>uploadedAt := Some now, cid := resultCid result,
                                 nid := resultNid result, uploadProgress := Some 1\<rparr>;
          s1 = updateAsset (id' asset) Uploaded m s;
          s2 = emitProgress (id' asset) 1 Uploaded None s1;
          s3 = deleteAsset (id' asset) s2
      in emitCompletion (id' asset) s3)"

text \<open>
  \<open>toLowerCase\<close> on the bytes of the string: the ASCII capitals change, the bytes of
  other characters stay. JavaScript also maps capitals outside ASCII; no such character
  becomes part of an occurrence of one of the ASCII words looked for below, so the tests
  on the result agree.
\<close>

definition toLowerCase_char :: "char \<Rightarrow> char" where
  "toLowerCase_char c =
     (let n = (of_char c :: nat) in if 65 \<le> n \<and> n \<le> 90 then char_of (n + 32) else c)"

definition toLowerCase :: "string \<Rightarrow> string" where
  "toLowerCase str = map toLowerCase_char str"

fun startsWith :: "string \<Rightarrow> string \<Rightarrow> bool" where
  "startsWith str [] = True"
| "startsWith [] (n # ns) = False"
| "startsWith (c # cs) (n # ns) = (c = n \<and> startsWith cs ns)"

fun includes_str :: "string \<Rightarrow> string \<Rightarrow> bool" where
  "includes_str [] needle = (needle = [])"
| "includes_str (c # cs) needle = (startsWith (c # cs) needle \<or> includes_str cs needle)"

text \<open>For the statements: \<open>needle\<close> occurs in \<open>str\<close> as a contiguous piece.\<close>

definition occursIn :: "string \<Rightarrow> string \<Rightarrow> bool" where
  "occursIn needle str = (\<exists>p q. str = p @ needle @ q)"

definition isInsufficientBalanceError :: "UploadError \<Rightarrow> bool" where
  "isInsufficientBalanceError err =
     (if dataErrorType err = Some ''asset_commit_insufficient_fund'' then True
      else (let message' = (case message err of
                              None \<Rightarrow> []
                            | Some m \<Rightarrow> toLowerCase m)
            in includes_str message' ''insufficient'' \<and>
               (includes_str message' ''fund'' \<or> includes_str message' ''balance'' \<or>
                includes_str message' ''credit'')))"

text \<open>\<open>error?.message || 'Upload failed'\<close>\<close>

definition errorMessageOf :: "UploadError \<Rightarrow> string" where
  "errorMessageOf err = (if truthy (message err) then the (message err) else ''Upload failed'')"

definition handleUploadError :: "Asset \<Rightarrow> UploadError \<Rightarrow> UploadService \<Rightarrow> UploadService" where
  "handleUploadError asset err s =
     (let errorMessage = errorMessageOf err;
          insufficient = isInsufficientBalanceError err;
          s1 = (if insufficient
                then clearInsufficientCreditsNotificationDismissed (setPaused True s)
                else s);
          errorType' = (if insufficient then Some ''insufficient_credits'' else None);
          m = (metadata asset)\<lparr>error := Some errorMessage, errorType := errorType'\<rparr>;
          s2 = updateAsset (id' asset) Failed m s1
      in emitProgress (id' asset) 0 Failed (Some errorMessage) s2)"

text \<open>
  \<open>processQueue\<close> from the moment the request settles: \<open>uploadAsset\<close> goes on to
  \<open>handleUploadSuccess\<close>, or throws into the \<open>catch\<close> of \<open>processQueue\<close>; then the
  queue is saved, the busy flag is dropped and \<open>processQueue\<close> is called again.
  \<open>now\<close> is \<open>new Date().toISOString()\<close>. With nothing in flight there is no suspended
  call to resume.
\<close>

definition processQueue_settled :: "Settlement \<Rightarrow> string \<Rightarrow> UploadService \<Rightarrow> UploadService" where
  "processQueue_settled r now s =
     (case inFlight s of
        None \<Rightarrow> s
      | Some asset \<Rightarrow>
          (let s1 = (case r of
                       Resolved result \<Rightarrow> handleUploadSuccess asset result now s
                     | Rejected err \<Rightarrow> handleUploadError asset err s);
               s2 = saveQueue s1
           in processQueue (s2\<lparr>isUploading := False, inFlight := None\<rparr>)))"

text \<open>The state in which \<open>processQueue_settled\<close> calls \<open>processQueue\<close> again.\<close>

definition settledState :: "Asset \<Rightarrow> Settlement \<Rightarrow> string \<Rightarrow> UploadService \<Rightarrow> UploadService" where
  "settledState a r now s =
     (saveQueue (case r of Resolved res \<Rightarrow> handleUploadSuccess a res now s
                         | Rejected err \<Rightarrow> handleUploadError a err s))
     \<lparr>isUploading := False, inFlight := None\<rparr>"

subsection \<open>Construction and restoration\<close>

fun resolveAssets :: "(string \<rightharpoonup> Asset) \<Rightarrow> string list \<Rightarrow> Asset list" where
  "resolveAssets store [] = []"
| "resolveAssets store (i # ids) =
     (case store i of
        Some asset \<Rightarrow> asset # resolveAssets store ids
      | None \<Rightarrow> resolveAssets store ids)"

text \<open>
  The constructor initialises the fields and calls \<open>restoreQueue\<close> without waiting for
  it. That call issues its read of the persisted IDs at once, before any later write, and
  is then suspended: the constructor returns with the IDs in \<open>restoring\<close>, and other
  calls may come first.
\<close>

definition newUploadService :: "(string \<rightharpoonup> Asset) \<Rightarrow> LocalStorage \<Rightarrow> UploadService" where
  "newUploadService store local =
     \<lparr>uploadQueue = [], isUploading = False, isPaused = False, inFlight = None,
      assetStorage = store, metadataStorage = local, trace = [],
      restoring = Some (getUploadQueueIds local)\<rparr>"

text \<open>
  \<open>restoreQueue\<close> from the moment its reads have come back: with a non-empty ID list the
  assets found in the blob store replace \<open>uploadQueue\<close> and \<open>processQueue\<close> is called.
  With no restoration pending there is nothing to resume.
\<close>

definition restoreQueue :: "UploadService \<Rightarrow> UploadService" where
  "restoreQueue s =
     (case restoring s of
        None \<Rightarrow> s
      | Some queueIds \<Rightarrow>
          (let s' = s\<lparr>restoring := None\<rparr>
           in if length queueIds > 0
              then processQueue (s'\<lparr>uploadQueue := resolveAssets (assetStorage s') queueIds\<rparr>)
              else s'))"

subsection \<open>Runs of the engine\<close>

datatype Event =
    Enqueue Asset bool
  | EnqueueMany "Asset list" bool
  | Remove string
  | Pause bool
  | Settled Settlement string
  | Restored

fun step :: "UploadService \<Rightarrow> Event \<Rightarrow> UploadService" where
  "step s (Enqueue asset isManualRetry) = addToQueue asset isManualRetry s"
| "step s (EnqueueMany assets isManualRetry) = addMultipleToQueue assets isManualRetry s"
| "step s (Remove assetId) = removeFromQueue assetId s"
| "step s (Pause paused) = setPaused paused s"
| "step s (Settled r now) = processQueue_settled r now s"
| "step s Restored = restoreQueue s"

definition run :: "UploadService \<Rightarrow> Event list \<Rightarrow> UploadService" where
  "run s evs = foldl step s evs"

text \<open>What a trace shows: the uploads started and the assets recorded as uploaded, each in
  program order.\<close>

fun startedOf :: "Effect \<Rightarrow> string list" where
  "startedOf (UPLOAD_PROGRESS i p Uploading e) = [i]"
| "startedOf _ = []"

fun uploadedOf :: "Effect \<Rightarrow> string list" where
  "uploadedOf (UpdateAsset i Uploaded m) = [i]"
| "uploadedOf _ = []"

definition startedIds :: "Effect list \<Rightarrow> string list" where
  "startedIds tr = concat (map startedOf tr)"

definition uploadedIds :: "Effect list \<Rightarrow> string list" where
  "uploadedIds tr = concat (map uploadedOf tr)"

text \<open>
  Reading a trace for overlapping uploads, from left to right with a busy flag: \<open>None\<close>
  as soon as an upload starts while another has not settled, or one settles that was not
  started; otherwise whether an upload is in flight at the end.
\<close>

fun busyAfter :: "bool option \<Rightarrow> Effect \<Rightarrow> bool option" where
  "busyAfter (Some busy) (UPLOAD_PROGRESS i p Uploading e) = (if busy then None else Some True)"
| "busyAfter (Some busy) (UPLOAD_PROGRESS i p Uploaded e) = (if busy then Some False else None)"
| "busyAfter (Some busy) (UPLOAD_PROGRESS i p Failed e) = (if busy then Some False else None)"
| "busyAfter b other = b"

definition oneAtATime :: "Effect list \<Rightarrow> bool option" where
  "oneAtATime tr = foldl busyAfter (Some False) tr"

definition inFlightIds :: "UploadService \<Rightarrow> string list" where
  "inFlightIds s = (case inFlight s of None \<Rightarrow> [] | Some asset \<Rightarrow> [id' asset])"

text \<open>
  Two invariants of the engine. \<open>coherent\<close>: the busy flag is up exactly when a call of
  \<open>processQueue\<close> is suspended on a request, and the trace shows no overlapping
  uploads. \<open>eager\<close>: the engine is not paused and has nothing queued unless it is busy.
\<close>

definition coherent :: "UploadService \<Rightarrow> bool" where
  "coherent s =
     (isUploading s = (inFlight s \<noteq> None) \<and> oneAtATime (trace s) = Some (isUploading s))"

definition eager :: "UploadService \<Rightarrow> bool" where
  "eager s = (\<not> isPaused s \<and> (isUploading s \<or> uploadQueue s = []))"




fun isSettled :: "Event \<Rightarrow> bool" where
  "isSettled (Settled r now) = True"
| "isSettled _ = False"


fun isResolved :: "Event \<Rightarrow> bool" where
  "isResolved (Settled (Resolved result) now) = True"
| "isResolved _ = False"

subsection \<open>The signed-metadata document\<close>

text \<open>
  The object built by \<open>createSignedMetadata\<close> holds strings and numbers. An object is the
  list of its properties in insertion order, which is the order of \<open>Object.keys\<close>.
\<close>

datatype MetaValue = MString string | MNumber number

definition Object_keys :: "(string \<times> 'v) list \<Rightarrow> string list" where
  "Object_keys obj = map fst obj"

definition hexDigit :: "nat \<Rightarrow> char" where
  "hexDigit n = (if n < 10 then char_of (48 + n) else char_of (87 + n))"

text \<open>\<open>QuoteJSONString\<close>: the quote, the backslash and the control characters are escaped.\<close>

definition quoteChar :: "char \<Rightarrow> string" where
  "quoteChar c =
     (let n = (of_char c :: nat) in
      if n = 34 then [CHR 0x5C, CHR 0x22]
      else if n = 92 then [CHR 0x5C, CHR 0x5C]
      else if n = 8 then [CHR 0x5C, CHR ''b'']
      else if n = 12 then [CHR 0x5C, CHR ''f'']
      else if n = 10 then [CHR 0x5C, CHR ''n'']
      else if n = 13 then [CHR 0x5C, CHR ''r'']
      else if n = 9 then [CHR 0x5C, CHR ''t'']
      else if n < 32 then [CHR 0x5C, CHR ''u'', CHR ''0'', CHR ''0'', hexDigit (n div 16), hexDigit (n mod 16)]
      else [c])"

definition quoteJSONString :: "string \<Rightarrow> string" where
  "quoteJSONString str = [CHR 0x22] @ concat (map quoteChar str) @ [CHR 0x22]"

definition serializeValue :: "(number \<Rightarrow> string) \<Rightarrow> MetaValue \<Rightarrow> string" where
  "serializeValue numberToString v =
     (case v of MString str \<Rightarrow> quoteJSONString str | MNumber n \<Rightarrow> numberToString n)"

text \<open>The property list of an array replacer: its strings, each once, in array order.\<close>

definition propertyList :: "string list \<Rightarrow> string list" where
  "propertyList replacer = foldl (\<lambda>acc k. if k \<in> set acc then acc else acc @ [k]) [] replacer"

text \<open>The properties \<open>JSON.stringify\<close> prints: those of the property list, in its order,
  that the object has.\<close>

fun printedProperties :: "(string \<times> 'v) list \<Rightarrow> string list \<Rightarrow> (string \<times> 'v) list" where
  "printedProperties obj [] = []"
| "printedProperties obj (k # ks) =
     (case map_of obj k of
        None \<Rightarrow> printedProperties obj ks
      | Some v \<Rightarrow> (k, v) # printedProperties obj ks)"

fun joinWith :: "string \<Rightarrow> string list \<Rightarrow> string" where
  "joinWith sep [] = []"
| "joinWith sep [x] = x"
| "joinWith sep (x # y # ys) = x @ sep @ joinWith sep (y # ys)"

definition printMember :: "(number \<Rightarrow> string) \<Rightarrow> string \<times> MetaValue \<Rightarrow> string" where
  "printMember numberToString kv =
     quoteJSONString (fst kv) @ '': '' @ serializeValue numberToString (snd kv)"

definition printObject :: "(number \<Rightarrow> string) \<Rightarrow> (string \<times> MetaValue) list \<Rightarrow> string" where
  "printObject numberToString members =
     (if members = [] then ''{}''
      else ''{'' @ [CHR 0x0A] @ ''  '' @
           joinWith ('','' @ [CHR 0x0A] @ ''  '') (map (printMember numberToString) members) @
           [CHR 0x0A] @ ''}'')"

text \<open>\<open>JSON.stringify(obj, replacer, 2)\<close> for an array replacer and an object of strings
  and numbers.\<close>

definition JSON_stringify :: "(number \<Rightarrow> string) \<Rightarrow> (string \<times> MetaValue) list \<Rightarrow> string list \<Rightarrow> string" where
  "JSON_stringify numberToString obj replacer =
     printObject numberToString (printedProperties obj (propertyList replacer))"

definition signedMetadataObject :: "Asset \<Rightarrow> (string \<times> MetaValue) list" where
  "signedMetadataObject asset =
     [(''spec_version'', MString ''2.0.0''),
      (''recorder'', MString ''ProofSnap Browser Extension''),
      (''created_at'', MNumber (createdAt asset))] @
     (case gpsLocation asset of
        None \<Rightarrow> []
      | Some g \<Rightarrow> [(''location_latitude'', MNumber (latitude g)),
                   (''location_longitude'', MNumber (longitude g))]) @
     (case sourceWebsite asset of
        None \<Rightarrow> []
      | Some w \<Rightarrow> [(''web_source_url'', MString (url w)),
                   (''web_source_title'', MString (title w))])"

definition createSignedMetadata :: "(number \<Rightarrow> string) \<Rightarrow> Asset \<Rightarrow> string" where
  "createSignedMetadata numberToString asset =
     (let metadata' = signedMetadataObject asset;
          sortedKeys = sort (Object_keys metadata')
      in JSON_stringify numberToString metadata' sortedKeys)"

text \<open>The members of the document in the order they are printed.\<close>

definition signedMembers :: "Asset \<Rightarrow> (string \<times> MetaValue) list" where
  "signedMembers asset =
     printedProperties (signedMetadataObject asset)
       (propertyList (sort (Object_keys (signedMetadataObject asset))))"

text \<open>
  For the statements. \<open>quoted\<close>: a text between double quotes, as it stands.
  \<open>memberLine\<close>: a line of the printed document, that is a line break, two spaces, the
  key in quotes, a colon, a space and the printed value. \<open>plainChar\<close>: a character that
  JSON prints as it stands.
\<close>

definition quoted :: "string \<Rightarrow> string" where
  "quoted str = [CHR 0x22] @ str @ [CHR 0x22]"

definition memberLine :: "string \<Rightarrow> string \<Rightarrow> string" where
  "memberLine key printed = [CHR 0x0A] @ ''  '' @ quoted key @ '': '' @ printed"

definition plainChar :: "char \<Rightarrow> bool" where
  "plainChar c = (let n = (of_char c :: nat) in 32 \<le> n \<and> n \<noteq> 34 \<and> n \<noteq> 92)"

subsection \<open>StorageService.getSettings\<close>

datatype Json =
    JNull
  | JBool bool
  | JNumber number
  | JString string
  | JArray "Json list"
  | JObject "(string \<times> Json) list"

type_synonym Settings = "string \<rightharpoonup> Json"

definition DEFAULT_SETTINGS :: Settings where
  "DEFAULT_SETTINGS = map_of
     [(''autoUpload'', JBool True),
      (''includeLocation'', JBool False),
      (''includeTimestamp'', JBool True),
      (''includeWebsiteInfo'', JBool True),
      (''timestampSize'', JString ''medium''),
      (''timestampFormat'', JString ''full''),
      (''timestampOpacity'', JNumber 1),
      (''timestampPosition'', JString ''top-left''),
      (''defaultCaptureMode'', JString ''visible''),
      (''screenshotFormat'', JString ''png''),
      (''screenshotQuality'', JNumber 90),
      (''huntModeEnabled'', JBool False),
      (''huntModeHashtags'', JString ''#ProofSnapHunt #AIHunt''),
      (''huntModeMessage'',
         JString ([CHR 0xF0, CHR 0x9F, CHR 0x8E, CHR 0xAF] @ '' I spotted this satisfying!''))]"

definition settingsFields :: "string list" where
  "settingsFields =
     [''autoUpload'', ''includeLocation'', ''includeTimestamp'', ''includeWebsiteInfo'',
      ''timestampSize'', ''timestampFormat'', ''timestampOpacity'', ''timestampPosition'',
      ''defaultCaptureMode'', ''screenshotFormat'', ''screenshotQuality'',
      ''huntModeEnabled'', ''huntModeHashtags'', ''huntModeMessage'']"

fun digits :: "nat \<Rightarrow> nat \<Rightarrow> string" where
  "digits 0 n = []"
| "digits (Suc fuel) n =
     (if n < 10 then [char_of (48 + n)] else digits fuel (n div 10) @ [char_of (48 + n mod 10)])"

definition indexKey :: "nat \<Rightarrow> string" where
  "indexKey n = digits (Suc n) n"

text \<open>
  The own enumerable properties that an object spread copies from a value: those of an
  object, the indexed elements of an array, the indexed characters of a string (here one
  per byte), none of \<open>null\<close>, a boolean or a number. A later property of the same name
  overrides an earlier one.
\<close>

definition ownProperties :: "Json \<Rightarrow> Settings" where
  "ownProperties v =
     (case v of
        JObject members \<Rightarrow> map_of (rev members)
      | JArray elems \<Rightarrow> map_of (zip (map indexKey [0..<length elems]) elems)
      | JString str \<Rightarrow> map_of (zip (map indexKey [0..<length str]) (map (\<lambda>c. JString [c]) str))
      | _ \<Rightarrow> Map.empty)"

datatype SettingsError = SyntaxError

text \<open>
  \<open>JSON_parse\<close> is the built-in \<open>JSON.parse\<close>: \<open>None\<close> when it throws. The stored
  record is read when it is truthy (present and not the empty string).
\<close>

definition getSettings :: "(string \<Rightarrow> Json option) \<Rightarrow> LocalStorage \<Rightarrow> SettingsError + Settings" where
  "getSettings JSON_parse st =
     (if truthy (user_settings st)
      then (case JSON_parse (the (user_settings st)) of
              None \<Rightarrow> Inl SyntaxError
            | Some saved \<Rightarrow> Inr (DEFAULT_SETTINGS ++ ownProperties saved))
      else Inr DEFAULT_SETTINGS)"

text \<open>Two stored texts for the examples: a record with one field, and a damaged record.
  \<open>JSON_parse_examples\<close> is \<open>JSON.parse\<close> on these two texts; it is used on no
  other text.\<close>

definition onlyAutoUploadText :: string where
  "onlyAutoUploadText = ''{'' @ [CHR 0x22] @ ''autoUpload'' @ [CHR 0x22] @ '':false}''"

definition damagedText :: string where
  "damagedText = ''{'' @ [CHR 0x22] @ ''autoUpload'' @ [CHR 0x22] @ '':fal''"

definition JSON_parse_examples :: "string \<Rightarrow> Json option" where
  "JSON_parse_examples text =
     (if text = onlyAutoUploadText then Some (JObject [(''autoUpload'', JBool False)])
      else None)"

subsection \<open>Region selection: the overlay script and the service worker\<close>

record MouseEvent =
  button :: number
  clientX :: number
  clientY :: number

text \<open>\<open>installed\<close>: the overlay elements and the document listeners are in place.\<close>

record Overlay =
  isSelecting :: bool
  startX :: number
  startY :: number
  installed :: bool

text \<open>A rectangle \<open>{x, y, width, height}\<close>.\<close>

datatype SelectionCoordinates = Coordinates number number number number

text \<open>The payload of \<open>SELECTION_COMPLETE\<close>: \<open>{cancelled: true, reason}\<close> or
  \<open>{cancelled: false, coordinates, viewportCoordinates}\<close>.\<close>

datatype SelectionPayload =
    SelectionCancelled string
  | SelectionRegion SelectionCoordinates SelectionCoordinates

definition Math_round :: "number \<Rightarrow> number" where
  "Math_round v = of_int \<lfloor>v + 1 / 2\<rfloor>"

definition cleanup :: "Overlay \<Rightarrow> Overlay" where
  "cleanup ov = ov\<lparr>installed := False\<rparr>"

definition handleMouseDown :: "MouseEvent \<Rightarrow> Overlay \<Rightarrow> Overlay" where
  "handleMouseDown e ov =
     (if button e \<noteq> 0 then ov
      else ov\<lparr>isSelecting := True, startX := clientX e, startY := clientY e\<rparr>)"

text \<open>\<open>devicePixelRatio\<close> is \<open>window.devicePixelRatio\<close>; \<open>|| 1\<close> replaces a zero.\<close>

definition handleMouseUp :: "number \<Rightarrow> MouseEvent \<Rightarrow> Overlay \<Rightarrow> Overlay \<times> SelectionPayload option" where
  "handleMouseUp devicePixelRatio e ov =
     (if \<not> isSelecting ov then (ov, None)
      else
        (let ov1 = ov\<lparr>isSelecting := False\<rparr>;
             currentX = clientX e;
             currentY = clientY e;
             left = min (startX ov1) currentX;
             top = min (startY ov1) currentY;
             w = \<bar>currentX - startX ov1\<bar>;
             h = \<bar>currentY - startY ov1\<bar>
         in if w < 10 \<or> h < 10
            then (cleanup ov1, Some (SelectionCancelled ''Selection too small''))
            else
              (let dpr = (if devicePixelRatio = 0 then 1 else devicePixelRatio)
               in (cleanup ov1,
                   Some (SelectionRegion
                          (Coordinates (Math_round (left * dpr)) (Math_round (top * dpr))
                                       (Math_round (w * dpr)) (Math_round (h * dpr)))
                          (Coordinates left top w h))))))"

definition handleKeyDown :: "string \<Rightarrow> Overlay \<Rightarrow> Overlay \<times> SelectionPayload option" where
  "handleKeyDown key ov =
     (if key = ''Escape'' then (cleanup ov, Some (SelectionCancelled ''User cancelled''))
      else (ov, None))"









subsection \<open>Values for the examples\<close>

definition emptyMetadata :: AssetMetadata where
  "emptyMetadata =
     \<lparr>uploadedAt = None, width = None, height = None, captureMode = None, caption = None,
      tag = None, error = None, errorType = None, cid = None, nid = None,
      uploadProgress = None\<rparr>"

definition draftAsset :: "string \<Rightarrow> Asset" where
  "draftAsset i =
     \<lparr>id' = i, uri = ''data:image/png;base64,AAAA'', mimeType = ''image/png'',
      createdAt = 1700000000000, status = Draft, metadata = emptyMetadata,
      gpsLocation = None, sourceWebsite = None\<rparr>"

text \<open>An asset captured with a location on a page whose title holds quotes, and the
  printing of the three numbers in it; the printing is used on no other number.\<close>

definition locatedAsset :: Asset where
  "locatedAsset =
     (draftAsset ''a'')
       \<lparr>gpsLocation := Some \<lparr>latitude = 25.5, longitude = 121.25, accuracy = 10,
                                timestamp = 1700000000000\<rparr>,
        sourceWebsite := Some \<lparr>url = ''https://example.com/a'',
                                  title = ''The '' @ [CHR 0x22] @ ''Example'' @ [CHR 0x22] @ '' page''\<rparr>\<rparr>"

definition printNumber :: "number \<Rightarrow> string" where
  "printNumber n =
     (if n = 1700000000000 then ''1700000000000''
      else if n = 25.5 then ''25.5''
      else if n = 121.25 then ''121.25''
      else ''0'')"

definition emptyLocal :: LocalStorage where
  "emptyLocal =
     \<lparr>upload_queue = None, insufficient_credits_dismissed = None, user_settings = None\<rparr>"

definition idleService :: UploadService where
  "idleService = newUploadService Map.empty emptyLocal"

text \<open>A service with assets \<open>a\<close> and \<open>b\<close> stored, and the same after \<open>a\<close> was enqueued:
  \<open>a\<close> is in flight.\<close>

definition storedService :: UploadService where
  "storedService =
     newUploadService [''a'' \<mapsto> draftAsset ''a'', ''b'' \<mapsto> draftAsset ''b''] emptyLocal"

definition uploadingService :: UploadService where
  "uploadingService = addToQueue (draftAsset ''a'') False storedService"

text \<open>\<open>a\<close> and \<open>b\<close> were enqueued and the upload of \<open>a\<close> failed for lack of credits:
  the engine is paused with \<open>b\<close> queued.\<close>

definition pausedService :: UploadService where
  "pausedService =
     run storedService
       [Enqueue (draftAsset ''a'') False, Enqueue (draftAsset ''b'') False,
        Settled (Rejected \<lparr>dataErrorType = Some ''asset_commit_insufficient_fund'',
                             message = None\<rparr>) ''2024-01-01T00:00:00.000Z'']"

text \<open>A service constructed over the persisted list \<open>[a, b]\<close> that takes the enqueue of a
  new asset \<open>d\<close> before its restoration has finished.\<close>

definition lateRestore :: UploadService where
  "lateRestore =
     addToQueue (draftAsset ''d'') False
       (newUploadService [''a'' \<mapsto> draftAsset ''a'', ''b'' \<mapsto> draftAsset ''b'']
          (emptyLocal\<lparr>upload_queue := Some [''a'', ''b'']\<rparr>))"

definition sampleResult :: UploadResult where
  "sampleResult = \<lparr>resultCid = Some ''bafy1'', resultNid = Some ''bafy1''\<rparr>"


definition insufficientError :: UploadError where
  "insufficientError =
     \<lparr>dataErrorType = None, message = Some ''Insufficient Balance for commit''\<rparr>"

definition networkError :: UploadError where
  "networkError = \<lparr>dataErrorType = None, message = Some ''Failed to fetch''\<rparr>"






section \<open>Properties\<close>

subsection \<open>Enqueueing what is already queued\<close>

lemma find_present:
  "id' asset \<in> id' ` set q \<Longrightarrow> \<exists>e. find (\<lambda>a. id' a = id' asset) q = Some e"
  by (cases "find (\<lambda>a. id' a = id' asset) q") (auto simp: find_None_iff)

lemma find_absent:
  "id' asset \<notin> id' ` set q \<Longrightarrow> find (\<lambda>a. id' a = id' asset) q = None"
  by (simp add: find_None_iff image_iff) metis

lemma pushMissing_keeps:
  "pushMissing as (q, n) = (q', n') \<Longrightarrow> id' ` set q \<subseteq> id' ` set q'"
proof (induction as arbitrary: q n)
  case Nil
  then show ?case by simp
next
  case (Cons a as)
  show ?case
  proof (cases "find (\<lambda>b. id' b = id' a) q")
    case None
    with Cons.prems have "pushMissing as (q @ [a], n + 1) = (q', n')" by simp
    from Cons.IH[OF this] show ?thesis by auto
  next
    case (Some e)
    with Cons.prems have "pushMissing as (q, n) = (q', n')" by simp
    from Cons.IH[OF this] show ?thesis .
  qed
qed

lemma pushMissing_append:
  "pushMissing (xs @ ys) st = pushMissing ys (pushMissing xs st)"
proof (induction xs arbitrary: st)
  case Nil
  then show ?case by (cases st) simp
next
  case (Cons a xs)
  obtain q n where st: "st = (q, n)" by (cases st)
  show ?case unfolding st by (cases "find (\<lambda>b. id' b = id' a) q") (simp_all add: Cons.IH)
qed

lemma pushMissing_skip:
  assumes "id' asset \<in> id' ` set q"
  shows "pushMissing (pre @ asset # post) (q, n) = pushMissing (pre @ post) (q, n)"
proof -
  obtain q' n' where p: "pushMissing pre (q, n) = (q', n')"
    by (cases "pushMissing pre (q, n)")
  from pushMissing_keeps[OF p] assms have "id' asset \<in> id' ` set q'" by auto
  from find_present[OF this] obtain e where "find (\<lambda>a. id' a = id' asset) q' = Some e" ..
  then show ?thesis by (simp add: pushMissing_append p)
qed

text \<open>
  C6. When the ID of an asset is already in the queue, \<open>addToQueue\<close> returns the service
  as it was: the queue, its length, both stores and the flags are unchanged. In a batch the
  rule holds asset by asset: a batch made of that asset alone changes nothing, and a batch
  that contains it does what the batch without it does.
\<close>

theorem enqueue_present_noop:
  assumes "id' asset \<in> id' ` set (uploadQueue s)"
  shows "addToQueue asset isManualRetry s = s \<and>
         addMultipleToQueue [asset] isManualRetry s = s \<and>
         addMultipleToQueue (pre @ asset # post) isManualRetry s =
           addMultipleToQueue (pre @ post) isManualRetry s"
proof -
  from find_present[OF assms]
  obtain e where e: "find (\<lambda>a. id' a = id' asset) (uploadQueue s) = Some e" ..
  have 1: "addToQueue asset isManualRetry s = s"
    by (simp add: addToQueue_def e)
  have 2: "addMultipleToQueue [asset] isManualRetry s = s"
    by (simp add: addMultipleToQueue_def e)
  have 3: "addMultipleToQueue (pre @ asset # post) isManualRetry s =
           addMultipleToQueue (pre @ post) isManualRetry s"
    by (simp add: addMultipleToQueue_def pushMissing_skip[OF assms])
  from 1 2 3 show ?thesis by blast
qed

theorem enqueue_present_noop_witness:
  "id' (draftAsset ''a'') \<in> id' ` set (uploadQueue (idleService\<lparr>uploadQueue := [draftAsset ''a'']\<rparr>)) \<and>
   addToQueue (draftAsset ''a'') False (idleService\<lparr>uploadQueue := [draftAsset ''a'']\<rparr>) =
     idleService\<lparr>uploadQueue := [draftAsset ''a'']\<rparr> \<and>
   addMultipleToQueue [draftAsset ''b'', draftAsset ''a''] False (idleService\<lparr>uploadQueue := [draftAsset ''a'']\<rparr>) =
     addMultipleToQueue [draftAsset ''b''] False (idleService\<lparr>uploadQueue := [draftAsset ''a'']\<rparr>)"
  using enqueue_present_noop[of "draftAsset ''a''" "idleService\<lparr>uploadQueue := [draftAsset ''a'']\<rparr>"
          False "[draftAsset ''b'']" "[]"]
  by simp

subsection \<open>A successful upload\<close>

lemmas engine_defs =
  addToQueue_def processQueue_def uploadAsset_request_def updateAssetStatusToUploading_def
  markedUploading_def updateAsset_def emitProgress_def saveQueue_def setUploadQueueIds_def
  maybeUnpauseForManualRetry_def setPaused_def newUploadService_def restoreQueue_def
  getUploadQueueIds_def truthy_def

lemma uploadingService_inFlight:
  "inFlight uploadingService = Some ((draftAsset ''a'')\<lparr>status := Uploading\<rparr>)"
  by (simp add: uploadingService_def storedService_def engine_defs draftAsset_def emptyLocal_def emptyMetadata_def Let_def)

lemma trace_processQueue: "\<exists>rest. trace (processQueue t) = trace t @ rest"
  by (cases "uploadQueue t") (simp_all add: processQueue_def uploadAsset_request_def updateAssetStatusToUploading_def updateAsset_def emitProgress_def Let_def)

text \<open>
  C2. \<open>handleUploadSuccess\<close> makes four calls, in this order: the blob store is told
  to record the asset as \<open>uploaded\<close> with the identifiers \<open>cid\<close> and \<open>nid\<close> of the
  response, full progress is emitted, the asset is deleted from the blob store, and the
  completion is broadcast. After it the blob store holds nothing under the asset's ID. In a
  drain step that ends in success these calls come first, followed by the saving of the
  queue.
\<close>

theorem upload_success_persist_then_delete:
  "trace (handleUploadSuccess asset result now s) =
     trace s @
     [UpdateAsset (id' asset) Uploaded
        ((metadata asset)\<lparr>uploadedAt := Some now, cid := resultCid result,
                          nid := resultNid result, uploadProgress := Some 1\<rparr>),
      UPLOAD_PROGRESS (id' asset) 1 Uploaded None,
      DeleteAsset (id' asset),
      UPLOAD_COMPLETE (id' asset)] \<and>
   assetStorage (handleUploadSuccess asset result now s) (id' asset) = None \<and>
   (inFlight s = Some asset \<longrightarrow>
     (\<exists>rest. trace (processQueue_settled (Resolved result) now s) =
        trace (handleUploadSuccess asset result now s) @
        SetUploadQueueIds (map id' (uploadQueue s)) # rest))"
proof -
  have a: "trace (handleUploadSuccess asset result now s) =
     trace s @
     [UpdateAsset (id' asset) Uploaded
        ((metadata asset)\<lparr>uploadedAt := Some now, cid := resultCid result,
                          nid := resultNid result, uploadProgress := Some 1\<rparr>),
      UPLOAD_PROGRESS (id' asset) 1 Uploaded None,
      DeleteAsset (id' asset),
      UPLOAD_COMPLETE (id' asset)]"
    by (simp add: handleUploadSuccess_def updateAsset_def emitProgress_def deleteAsset_def
        emitCompletion_def Let_def)
  have b: "assetStorage (handleUploadSuccess asset result now s) (id' asset) = None"
    by (simp add: handleUploadSuccess_def updateAsset_def emitProgress_def deleteAsset_def
        emitCompletion_def Let_def)
  have q: "uploadQueue (handleUploadSuccess asset result now s) = uploadQueue s"
    by (simp add: handleUploadSuccess_def updateAsset_def emitProgress_def deleteAsset_def
        emitCompletion_def Let_def)
  have c: "\<exists>rest. trace (processQueue_settled (Resolved result) now s) =
        trace (handleUploadSuccess asset result now s) @
        SetUploadQueueIds (map id' (uploadQueue s)) # rest" if "inFlight s = Some asset"
  proof -
    let ?t = "(saveQueue (handleUploadSuccess asset result now s))\<lparr>isUploading := False, inFlight := None\<rparr>"
    have "processQueue_settled (Resolved result) now s = processQueue ?t"
      using that by (simp add: processQueue_settled_def Let_def)
    moreover obtain rest where "trace (processQueue ?t) = trace ?t @ rest"
      using trace_processQueue by blast
    moreover have "trace ?t = trace (handleUploadSuccess asset result now s) @
        [SetUploadQueueIds (map id' (uploadQueue s))]"
      by (simp add: saveQueue_def setUploadQueueIds_def q)
    ultimately show ?thesis by simp
  qed
  from a b c show ?thesis by blast
qed

theorem upload_success_persist_then_delete_witness:
  "inFlight uploadingService = Some ((draftAsset ''a'')\<lparr>status := Uploading\<rparr>) \<and>
   (\<exists>rest. trace (processQueue_settled (Resolved sampleResult) ''2024-01-01T00:00:00.000Z'' uploadingService) =
        trace (handleUploadSuccess ((draftAsset ''a'')\<lparr>status := Uploading\<rparr>) sampleResult
                 ''2024-01-01T00:00:00.000Z'' uploadingService) @
        SetUploadQueueIds (map id' (uploadQueue uploadingService)) # rest)"
  using upload_success_persist_then_delete[of "(draftAsset ''a'')\<lparr>status := Uploading\<rparr>" sampleResult
      "''2024-01-01T00:00:00.000Z''" uploadingService] uploadingService_inFlight
  by blast

subsection \<open>A failed upload\<close>

lemma startsWith_iff: "startsWith str needle = (\<exists>q. str = needle @ q)"
  by (induction str needle rule: startsWith.induct) auto

lemma occursIn_Cons:
  "occursIn needle (c # cs) = ((\<exists>q. c # cs = needle @ q) \<or> occursIn needle cs)"
  unfolding occursIn_def
proof
  assume "\<exists>p q. c # cs = p @ needle @ q"
  then obtain p q where pq: "c # cs = p @ needle @ q" by blast
  show "(\<exists>q. c # cs = needle @ q) \<or> (\<exists>p q. cs = p @ needle @ q)"
  proof (cases p)
    case Nil
    with pq show ?thesis by auto
  next
    case (Cons x xs)
    with pq have "cs = xs @ needle @ q" by simp
    then show ?thesis by blast
  qed
next
  assume "(\<exists>q. c # cs = needle @ q) \<or> (\<exists>p q. cs = p @ needle @ q)"
  then show "\<exists>p q. c # cs = p @ needle @ q"
  proof
    assume "\<exists>q. c # cs = needle @ q"
    then obtain q where "c # cs = [] @ needle @ q" by auto
    then show ?thesis by blast
  next
    assume "\<exists>p q. cs = p @ needle @ q"
    then obtain p q where "c # cs = (c # p) @ needle @ q" by auto
    then show ?thesis by blast
  qed
qed

lemma includes_str_iff: "includes_str str needle = occursIn needle str"
proof (induction str)
  case Nil
  then show ?case by (auto simp: occursIn_def)
next
  case (Cons c cs)
  then show ?case by (simp add: startsWith_iff occursIn_Cons)
qed

lemmas error_defs =
  handleUploadError_def setPaused_def clearInsufficientCreditsNotificationDismissed_def
  updateAsset_def emitProgress_def Let_def

lemma handleUploadError_queue: "uploadQueue (handleUploadError asset err s) = uploadQueue s"
  by (simp add: error_defs)

lemma handleUploadError_paused:
  "isPaused (handleUploadError asset err s) = (isInsufficientBalanceError err \<or> isPaused s)"
  by (simp add: error_defs)

lemma insufficientError_is: "isInsufficientBalanceError insufficientError"
  unfolding insufficientError_def by code_simp

lemma networkError_is_not: "\<not> isInsufficientBalanceError networkError"
  unfolding networkError_def by code_simp

text \<open>
  C3. An error is classified as insufficient balance exactly when its structured type is
  \<open>asset_commit_insufficient_fund\<close>, or its message, in lower case, contains
  \<open>insufficient\<close> and one of \<open>fund\<close>, \<open>balance\<close>, \<open>credit\<close>. For such an error
  \<open>handleUploadError\<close> pauses the engine, clears the dismissal flag of the notification and
  records the asset as \<open>failed\<close> with \<open>errorType\<close> \<open>insufficient_credits\<close>; the drain
  step then ends paused, with no upload started and the queue kept. For any other error the
  pause flag and the dismissal flag stay as they were and the recorded \<open>errorType\<close> is
  unset.
\<close>

theorem upload_error_classified:
  "isInsufficientBalanceError err =
     (dataErrorType err = Some ''asset_commit_insufficient_fund'' \<or>
      (\<exists>m. message err = Some m \<and> occursIn ''insufficient'' (toLowerCase m) \<and>
           (occursIn ''fund'' (toLowerCase m) \<or> occursIn ''balance'' (toLowerCase m) \<or>
            occursIn ''credit'' (toLowerCase m)))) \<and>
   isPaused (handleUploadError asset err s) = (isInsufficientBalanceError err \<or> isPaused s) \<and>
   insufficient_credits_dismissed (metadataStorage (handleUploadError asset err s)) =
     (if isInsufficientBalanceError err then None
      else insufficient_credits_dismissed (metadataStorage s)) \<and>
   trace (handleUploadError asset err s) =
     trace s @ (if isInsufficientBalanceError err then [ClearDismissed] else []) @
     [UpdateAsset (id' asset) Failed
        ((metadata asset)\<lparr>error := Some (errorMessageOf err),
                          errorType := (if isInsufficientBalanceError err
                                        then Some ''insufficient_credits'' else None)\<rparr>),
      UPLOAD_PROGRESS (id' asset) 0 Failed (Some (errorMessageOf err))] \<and>
   (inFlight s = Some asset \<longrightarrow>
      isPaused (processQueue_settled (Rejected err) now s) =
        (isInsufficientBalanceError err \<or> isPaused s) \<and>
      (isInsufficientBalanceError err \<longrightarrow>
         \<not> isUploading (processQueue_settled (Rejected err) now s) \<and>
         inFlight (processQueue_settled (Rejected err) now s) = None \<and>
         uploadQueue (processQueue_settled (Rejected err) now s) = uploadQueue s))"
proof -
  have a: "isInsufficientBalanceError err =
     (dataErrorType err = Some ''asset_commit_insufficient_fund'' \<or>
      (\<exists>m. message err = Some m \<and> occursIn ''insufficient'' (toLowerCase m) \<and>
           (occursIn ''fund'' (toLowerCase m) \<or> occursIn ''balance'' (toLowerCase m) \<or>
            occursIn ''credit'' (toLowerCase m))))"
  proof (cases "message err")
    case None
    have "\<not> occursIn ''insufficient'' []" by (simp add: occursIn_def)
    with None show ?thesis
      by (simp add: isInsufficientBalanceError_def includes_str_iff Let_def)
  next
    case (Some m)
    then show ?thesis
      by (simp add: isInsufficientBalanceError_def includes_str_iff Let_def)
  qed
  have b: "isPaused (handleUploadError asset err s) = (isInsufficientBalanceError err \<or> isPaused s)"
    by (rule handleUploadError_paused)
  have c: "insufficient_credits_dismissed (metadataStorage (handleUploadError asset err s)) =
     (if isInsufficientBalanceError err then None
      else insufficient_credits_dismissed (metadataStorage s))"
    by (simp add: error_defs)
  have d: "trace (handleUploadError asset err s) =
     trace s @ (if isInsufficientBalanceError err then [ClearDismissed] else []) @
     [UpdateAsset (id' asset) Failed
        ((metadata asset)\<lparr>error := Some (errorMessageOf err),
                          errorType := (if isInsufficientBalanceError err
                                        then Some ''insufficient_credits'' else None)\<rparr>),
      UPLOAD_PROGRESS (id' asset) 0 Failed (Some (errorMessageOf err))]"
    by (simp add: error_defs)
  have e: "isPaused (processQueue_settled (Rejected err) now s) =
        (isInsufficientBalanceError err \<or> isPaused s) \<and>
      (isInsufficientBalanceError err \<longrightarrow>
         \<not> isUploading (processQueue_settled (Rejected err) now s) \<and>
         inFlight (processQueue_settled (Rejected err) now s) = None \<and>
         uploadQueue (processQueue_settled (Rejected err) now s) = uploadQueue s)"
    if f: "inFlight s = Some asset"
  proof -
    let ?t = "(saveQueue (handleUploadError asset err s))\<lparr>isUploading := False, inFlight := None\<rparr>"
    have eq: "processQueue_settled (Rejected err) now s = processQueue ?t"
      using f by (simp add: processQueue_settled_def Let_def)
    have p: "isPaused ?t = (isInsufficientBalanceError err \<or> isPaused s)"
      by (simp add: saveQueue_def setUploadQueueIds_def handleUploadError_paused)
    have q: "uploadQueue ?t = uploadQueue s"
      by (simp add: saveQueue_def setUploadQueueIds_def handleUploadError_queue)
    have 1: "isPaused (processQueue ?t) = isPaused ?t"
      by (cases "uploadQueue ?t")
         (simp_all add: processQueue_def uploadAsset_request_def
            updateAssetStatusToUploading_def updateAsset_def emitProgress_def Let_def)
    have 2: "processQueue ?t = ?t" if "isPaused ?t"
      using that by (simp add: processQueue_def)
    show ?thesis
      unfolding eq using 1 2 p q by auto
  qed
  from a b c d e show ?thesis by blast
qed

theorem upload_error_classified_witness:
  "inFlight uploadingService = Some ((draftAsset ''a'')\<lparr>status := Uploading\<rparr>) \<and>
   isInsufficientBalanceError insufficientError \<and>
   isPaused (processQueue_settled (Rejected insufficientError) ''t'' uploadingService) \<and>
   \<not> isUploading (processQueue_settled (Rejected insufficientError) ''t'' uploadingService) \<and>
   inFlight (processQueue_settled (Rejected insufficientError) ''t'' uploadingService) = None"
  using upload_error_classified[of insufficientError "(draftAsset ''a'')\<lparr>status := Uploading\<rparr>"
          uploadingService "''t''"]
        uploadingService_inFlight insufficientError_is
  by blast

subsection \<open>What \<open>processQueue\<close> does\<close>

lemma markedUploading_id [simp]: "id' (markedUploading a) = id' a"
  by (simp add: markedUploading_def updateAssetStatusToUploading_def Let_def)

lemma processQueue_blocked:
  "isUploading t \<or> isPaused t \<or> uploadQueue t = [] \<Longrightarrow> processQueue t = t"
  by (auto simp: processQueue_def)

lemmas start_defs =
  processQueue_def uploadAsset_request_def updateAssetStatusToUploading_def
  markedUploading_def updateAsset_def emitProgress_def Let_def

lemma processQueue_starts:
  assumes "\<not> isUploading t" "\<not> isPaused t" "uploadQueue t = a # rest"
  shows "uploadQueue (processQueue t) = rest"
    and "isUploading (processQueue t)"
    and "\<not> isPaused (processQueue t)"
    and "inFlight (processQueue t) = Some (markedUploading a)"
    and "metadataStorage (processQueue t) = metadataStorage t"
    and "trace (processQueue t) =
           trace t @ [UpdateAsset (id' a) Uploading (metadata (markedUploading a)),
                      UPLOAD_PROGRESS (id' a) 0 Uploading None]"
  using assms by (simp_all add: start_defs)

lemma processQueue_keeps:
  "isPaused (processQueue t) = isPaused t"
  "metadataStorage (processQueue t) = metadataStorage t"
  by (cases "uploadQueue t"; simp add: start_defs)+

lemma processQueue_drains:
  assumes "\<not> isPaused t" "isUploading t \<or> uploadQueue t \<noteq> []"
  shows "isUploading (processQueue t) \<and> \<not> isPaused (processQueue t)"
proof (cases "isUploading t")
  case True
  then show ?thesis using assms by (simp add: processQueue_blocked)
next
  case False
  with assms obtain a rest where "uploadQueue t = a # rest" by (cases "uploadQueue t") auto
  from processQueue_starts(2,3)[OF False assms(1) this] show ?thesis by simp
qed

lemma processQueue_idem: "processQueue (processQueue t) = processQueue t"
proof (cases "isUploading t \<or> isPaused t \<or> uploadQueue t = []")
  case True
  then show ?thesis by (simp add: processQueue_blocked)
next
  case False
  then obtain a rest where "uploadQueue t = a # rest" by (cases "uploadQueue t") auto
  with False have "isUploading (processQueue t)" by (simp add: processQueue_starts(2))
  then show ?thesis by (simp add: processQueue_blocked)
qed

text \<open>An enqueue with manual retry, after it has saved a queue that is not empty.\<close>
lemma retry_then_process:
  assumes "uploadQueue t \<noteq> []"
  shows "isUploading (processQueue (maybeUnpauseForManualRetry True t)) \<and>
         \<not> isPaused (processQueue (maybeUnpauseForManualRetry True t))"
proof (cases "isPaused t")
  case True
  let ?u = "t\<lparr>isPaused := False\<rparr>"
  have "maybeUnpauseForManualRetry True t = processQueue ?u"
    using True by (simp add: maybeUnpauseForManualRetry_def setPaused_def)
  moreover have "isUploading (processQueue ?u) \<and> \<not> isPaused (processQueue ?u)"
    by (rule processQueue_drains) (use assms in simp_all)
  ultimately show ?thesis by (simp add: processQueue_idem)
next
  case False
  then have "maybeUnpauseForManualRetry True t = t"
    by (simp add: maybeUnpauseForManualRetry_def)
  with False assms show ?thesis by (simp add: processQueue_drains)
qed

lemma pushMissing_all_present:
  "\<forall>a\<in>set assets. id' a \<in> id' ` set q \<Longrightarrow> pushMissing assets (q, n) = (q, n)"
proof (induction assets)
  case Nil
  then show ?case by simp
next
  case (Cons a assets)
  then obtain e where "find (\<lambda>b. id' b = id' a) q = Some e"
    using find_present[of a q] by auto
  with Cons show ?case by simp
qed

lemma pushMissing_mono:
  "pushMissing assets (q, n) = (q', n') \<Longrightarrow> n \<le> n' \<and> (q \<noteq> [] \<longrightarrow> q' \<noteq> [])"
proof (induction assets arbitrary: q n)
  case Nil
  then show ?case by simp
next
  case (Cons a assets)
  show ?case
  proof (cases "find (\<lambda>b. id' b = id' a) q")
    case None
    with Cons.prems have "pushMissing assets (q @ [a], n + 1) = (q', n')" by simp
    from Cons.IH[OF this] show ?thesis by simp
  next
    case (Some e)
    with Cons.prems have "pushMissing assets (q, n) = (q', n')" by simp
    from Cons.IH[OF this] show ?thesis .
  qed
qed

lemma pushMissing_some_absent:
  "\<exists>a\<in>set assets. id' a \<notin> id' ` set q \<Longrightarrow> pushMissing assets (q, n) = (q', n')
   \<Longrightarrow> n < n' \<and> q' \<noteq> []"
proof (induction assets arbitrary: q n)
  case Nil
  then show ?case by simp
next
  case (Cons a assets)
  show ?case
  proof (cases "find (\<lambda>b. id' b = id' a) q")
    case None
    with Cons.prems have "pushMissing assets (q @ [a], n + 1) = (q', n')" by simp
    from pushMissing_mono[OF this] show ?thesis by simp
  next
    case (Some e)
    then have "id' a \<in> id' ` set q"
      by (metis find_absent option.distinct(1))
    with Cons.prems(1) have ex: "\<exists>a\<in>set assets. id' a \<notin> id' ` set q" by auto
    from Some Cons.prems have "pushMissing assets (q, n) = (q', n')" by simp
    from Cons.IH[OF ex this] show ?thesis .
  qed
qed

lemmas run_defs =
  run_def addToQueue_def processQueue_settled_def handleUploadError_def handleUploadSuccess_def
  errorMessageOf_def isInsufficientBalanceError_def setPaused_def
  clearInsufficientCreditsNotificationDismissed_def deleteAsset_def emitCompletion_def
  saveQueue_def setUploadQueueIds_def maybeUnpauseForManualRetry_def newUploadService_def
  restoreQueue_def getUploadQueueIds_def truthy_def start_defs
  draftAsset_def emptyLocal_def emptyMetadata_def

lemma pausedService_fields:
  "isPaused pausedService" "\<not> isUploading pausedService"
  "uploadQueue pausedService = [draftAsset ''b'']"
  by (simp_all add: pausedService_def storedService_def run_defs)

subsection \<open>Manual retry\<close>

text \<open>
  C5, as the code has it. A manual-retry enqueue that inserts (the ID is not in the queue;
  for a batch, at least one ID is not) leaves the engine unpaused with an upload in
  flight, whatever the pause flag was before; no balance is looked at. A manual-retry
  enqueue of what is already queued returns before the unpause and changes nothing, so a
  paused engine stays paused.
\<close>

theorem manual_retry_unpauses_when_inserted:
  "(id' asset \<notin> id' ` set (uploadQueue s) \<longrightarrow>
      \<not> isPaused (addToQueue asset True s) \<and> isUploading (addToQueue asset True s)) \<and>
   (id' asset \<in> id' ` set (uploadQueue s) \<longrightarrow> addToQueue asset True s = s) \<and>
   ((\<exists>a\<in>set assets. id' a \<notin> id' ` set (uploadQueue s)) \<longrightarrow>
      \<not> isPaused (addMultipleToQueue assets True s) \<and>
      isUploading (addMultipleToQueue assets True s)) \<and>
   ((\<forall>a\<in>set assets. id' a \<in> id' ` set (uploadQueue s)) \<longrightarrow>
      addMultipleToQueue assets True s = s)"
proof -
  have 1: "\<not> isPaused (addToQueue asset True s) \<and> isUploading (addToQueue asset True s)"
    if "id' asset \<notin> id' ` set (uploadQueue s)"
  proof -
    let ?t = "saveQueue (s\<lparr>uploadQueue := uploadQueue s @ [asset]\<rparr>)"
    have "addToQueue asset True s = processQueue (maybeUnpauseForManualRetry True ?t)"
      by (simp add: addToQueue_def find_absent[OF that])
    moreover have "uploadQueue ?t \<noteq> []"
      by (simp add: saveQueue_def setUploadQueueIds_def)
    ultimately show ?thesis using retry_then_process[of ?t] by simp
  qed
  have 2: "addToQueue asset True s = s" if "id' asset \<in> id' ` set (uploadQueue s)"
    using find_present[OF that] by (auto simp: addToQueue_def)
  have 3: "\<not> isPaused (addMultipleToQueue assets True s) \<and>
      isUploading (addMultipleToQueue assets True s)"
    if ex: "\<exists>a\<in>set assets. id' a \<notin> id' ` set (uploadQueue s)"
  proof -
    obtain q n where p: "pushMissing assets (uploadQueue s, 0) = (q, n)"
      by (cases "pushMissing assets (uploadQueue s, 0)")
    from pushMissing_some_absent[OF ex p] have n: "0 < n" and q: "q \<noteq> []" by simp_all
    let ?t = "saveQueue (s\<lparr>uploadQueue := q\<rparr>)"
    have "addMultipleToQueue assets True s = processQueue (maybeUnpauseForManualRetry True ?t)"
      using n by (simp add: addMultipleToQueue_def p)
    moreover have "uploadQueue ?t \<noteq> []"
      using q by (simp add: saveQueue_def setUploadQueueIds_def)
    ultimately show ?thesis using retry_then_process[of ?t] by simp
  qed
  have 4: "addMultipleToQueue assets True s = s"
    if "\<forall>a\<in>set assets. id' a \<in> id' ` set (uploadQueue s)"
    by (simp add: addMultipleToQueue_def pushMissing_all_present[OF that])
  from 1 2 3 4 show ?thesis by blast
qed

theorem manual_retry_unpauses_when_inserted_witness:
  "id' (draftAsset ''a'') \<notin> id' ` set (uploadQueue pausedService) \<and>
   isPaused pausedService \<and>
   \<not> isPaused (addToQueue (draftAsset ''a'') True pausedService) \<and>
   isUploading (addToQueue (draftAsset ''a'') True pausedService) \<and>
   (\<exists>a\<in>set [draftAsset ''a'']. id' a \<notin> id' ` set (uploadQueue pausedService)) \<and>
   \<not> isPaused (addMultipleToQueue [draftAsset ''a''] True pausedService)"
proof -
  have h: "id' (draftAsset ''a'') \<notin> id' ` set (uploadQueue pausedService)"
    by (simp add: pausedService_fields draftAsset_def)
  then have h': "\<exists>a\<in>set [draftAsset ''a'']. id' a \<notin> id' ` set (uploadQueue pausedService)"
    by simp
  from h h' pausedService_fields(1)
    manual_retry_unpauses_when_inserted[of "draftAsset ''a''" pausedService "[draftAsset ''a'']"]
  show ?thesis by blast
qed

text \<open>
  The claim as stated fails: with the engine paused and \<open>b\<close> queued, a manual retry of
  \<open>b\<close> leaves it paused and idle.
\<close>

theorem manual_retry_of_queued_asset_stays_paused:
  "isPaused pausedService \<and>
   id' (draftAsset ''b'') \<in> id' ` set (uploadQueue pausedService) \<and>
   isPaused (addToQueue (draftAsset ''b'') True pausedService) \<and>
   \<not> isUploading (addToQueue (draftAsset ''b'') True pausedService)"
proof -
  have "find (\<lambda>a. id' a = id' (draftAsset ''b'')) (uploadQueue pausedService) =
          Some (draftAsset ''b'')"
    by (simp add: pausedService_fields)
  then have "addToQueue (draftAsset ''b'') True pausedService = pausedService"
    by (simp add: addToQueue_def)
  then show ?thesis by (simp add: pausedService_fields)
qed

subsection \<open>The persisted ID list\<close>

lemma saveQueue_fields [simp]:
  "uploadQueue (saveQueue t) = uploadQueue t"
  "isUploading (saveQueue t) = isUploading t"
  "isPaused (saveQueue t) = isPaused t"
  "inFlight (saveQueue t) = inFlight t"
  "upload_queue (metadataStorage (saveQueue t)) = Some (map id' (uploadQueue t))"
  by (simp_all add: saveQueue_def setUploadQueueIds_def)

lemma processQueue_queue:
  "uploadQueue (processQueue t) =
     (if isUploading t \<or> isPaused t then uploadQueue t else tl (uploadQueue t))"
  by (cases "uploadQueue t") (simp_all add: start_defs)

lemma processQueue_uploading:
  "isUploading (processQueue t) = (isUploading t \<or> (\<not> isPaused t \<and> uploadQueue t \<noteq> []))"
  by (cases "uploadQueue t") (simp_all add: start_defs)

text \<open>The queue and the persisted list after the save of an enqueue.\<close>
lemma after_save:
  assumes "uploadQueue t \<noteq> []"
  shows "metadataStorage (processQueue (maybeUnpauseForManualRetry m t)) = metadataStorage t"
    and "uploadQueue (processQueue (maybeUnpauseForManualRetry m t)) =
          (if isUploading t \<or> (isPaused t \<and> \<not> m) then uploadQueue t else tl (uploadQueue t))"
proof -
  show "metadataStorage (processQueue (maybeUnpauseForManualRetry m t)) = metadataStorage t"
    by (simp add: maybeUnpauseForManualRetry_def setPaused_def processQueue_keeps)
  show "uploadQueue (processQueue (maybeUnpauseForManualRetry m t)) =
          (if isUploading t \<or> (isPaused t \<and> \<not> m) then uploadQueue t else tl (uploadQueue t))"
  proof (cases "m \<and> isPaused t")
    case True
    then have "maybeUnpauseForManualRetry m t = processQueue (t\<lparr>isPaused := False\<rparr>)"
      by (simp add: maybeUnpauseForManualRetry_def setPaused_def)
    with True show ?thesis by (simp add: processQueue_idem processQueue_queue)
  next
    case False
    then have "maybeUnpauseForManualRetry m t = t"
      by (auto simp: maybeUnpauseForManualRetry_def)
    with False show ?thesis by (auto simp: processQueue_queue)
  qed
qed

lemma handleUploadSuccess_fields [simp]:
  "uploadQueue (handleUploadSuccess a r now s) = uploadQueue s"
  "isPaused (handleUploadSuccess a r now s) = isPaused s"
  by (simp_all add: handleUploadSuccess_def updateAsset_def emitProgress_def deleteAsset_def
      emitCompletion_def Let_def)

lemma storedService_fields:
  "uploadQueue storedService = []" "\<not> isUploading storedService" "\<not> isPaused storedService"
  "inFlight storedService = None"
  by (simp_all add: storedService_def run_defs)

text \<open>
  C4, as the code has it. A removal returns with the persisted list equal to the IDs of the
  in-memory queue. An enqueue that inserts, single or batch, and the completion of a drain
  step save the IDs of the in-memory queue and only then call \<open>processQueue\<close>. When that
  call starts the next upload, it takes the head out of the in-memory queue without saving
  again: on return the persisted list still holds the head, and the in-memory queue is its
  tail. Otherwise the two are equal on return.
\<close>

theorem queue_saved_before_next_upload_starts:
  "upload_queue (metadataStorage (removeFromQueue assetId s)) =
     Some (map id' (uploadQueue (removeFromQueue assetId s))) \<and>
   (id' asset \<notin> id' ` set (uploadQueue s) \<longrightarrow>
      upload_queue (metadataStorage (addToQueue asset m s)) =
        Some (map id' (uploadQueue s @ [asset])) \<and>
      uploadQueue (addToQueue asset m s) =
        (if isUploading s \<or> (isPaused s \<and> \<not> m) then uploadQueue s @ [asset]
         else tl (uploadQueue s @ [asset]))) \<and>
   (pushMissing assets (uploadQueue s, 0) = (q, n) \<and> 0 < n \<longrightarrow>
      upload_queue (metadataStorage (addMultipleToQueue assets m s)) = Some (map id' q) \<and>
      uploadQueue (addMultipleToQueue assets m s) =
        (if isUploading s \<or> (isPaused s \<and> \<not> m) then q else tl q)) \<and>
   (inFlight s = Some asset \<longrightarrow>
      upload_queue (metadataStorage (processQueue_settled r now s)) =
        Some (map id' (uploadQueue s)) \<and>
      uploadQueue (processQueue_settled r now s) =
        (if isPaused (processQueue_settled r now s) then uploadQueue s
         else tl (uploadQueue s)))"
proof -
  have 1: "upload_queue (metadataStorage (removeFromQueue assetId s)) =
     Some (map id' (uploadQueue (removeFromQueue assetId s)))"
    by (simp add: removeFromQueue_def)
  have 2: "upload_queue (metadataStorage (addToQueue asset m s)) =
        Some (map id' (uploadQueue s @ [asset])) \<and>
      uploadQueue (addToQueue asset m s) =
        (if isUploading s \<or> (isPaused s \<and> \<not> m) then uploadQueue s @ [asset]
         else tl (uploadQueue s @ [asset]))"
    if "id' asset \<notin> id' ` set (uploadQueue s)"
  proof -
    let ?t = "saveQueue (s\<lparr>uploadQueue := uploadQueue s @ [asset]\<rparr>)"
    have eq: "addToQueue asset m s = processQueue (maybeUnpauseForManualRetry m ?t)"
      by (simp add: addToQueue_def find_absent[OF that])
    have ne: "uploadQueue ?t \<noteq> []" by simp
    show ?thesis unfolding eq after_save[OF ne] by simp
  qed
  have 3: "upload_queue (metadataStorage (addMultipleToQueue assets m s)) = Some (map id' q) \<and>
      uploadQueue (addMultipleToQueue assets m s) =
        (if isUploading s \<or> (isPaused s \<and> \<not> m) then q else tl q)"
    if p: "pushMissing assets (uploadQueue s, 0) = (q, n)" and n: "0 < n"
  proof -
    let ?t = "saveQueue (s\<lparr>uploadQueue := q\<rparr>)"
    have eq: "addMultipleToQueue assets m s = processQueue (maybeUnpauseForManualRetry m ?t)"
      using n by (simp add: addMultipleToQueue_def p)
    have "q \<noteq> []"
    proof
      assume "q = []"
      with p have "pushMissing assets (uploadQueue s, 0) = ([], n)" by simp
      from pushMissing_keeps[OF this] have e: "uploadQueue s = []" by simp
      show False
      proof (cases "\<exists>a\<in>set assets. id' a \<notin> id' ` set (uploadQueue s)")
        case True
        from pushMissing_some_absent[OF True p] \<open>q = []\<close> show False by simp
      next
        case False
        then have "pushMissing assets (uploadQueue s, 0) = (uploadQueue s, 0)"
          by (simp add: pushMissing_all_present)
        with p n show False by simp
      qed
    qed
    then have ne: "uploadQueue ?t \<noteq> []" by simp
    show ?thesis unfolding eq after_save[OF ne] by simp
  qed
  have 4: "upload_queue (metadataStorage (processQueue_settled r now s)) =
        Some (map id' (uploadQueue s)) \<and>
      uploadQueue (processQueue_settled r now s) =
        (if isPaused (processQueue_settled r now s) then uploadQueue s
         else tl (uploadQueue s))"
    if f: "inFlight s = Some asset"
  proof -
    let ?h = "(case r of Resolved result \<Rightarrow> handleUploadSuccess asset result now s
                       | Rejected err \<Rightarrow> handleUploadError asset err s)"
    let ?t = "(saveQueue ?h)\<lparr>isUploading := False, inFlight := None\<rparr>"
    have eq: "processQueue_settled r now s = processQueue ?t"
      using f by (simp add: processQueue_settled_def Let_def)
    have q: "uploadQueue ?h = uploadQueue s"
      by (cases r) (simp_all add: handleUploadError_queue)
    show ?thesis unfolding eq
      by (simp add: processQueue_keeps processQueue_queue q)
  qed
  from 1 2 3 4 show ?thesis by blast
qed

theorem queue_saved_before_next_upload_starts_witness:
  "id' (draftAsset ''a'') \<notin> id' ` set (uploadQueue storedService) \<and>
   upload_queue (metadataStorage (addToQueue (draftAsset ''a'') False storedService)) =
     Some (map id' (uploadQueue storedService @ [draftAsset ''a''])) \<and>
   pushMissing [draftAsset ''a''] (uploadQueue storedService, 0) = ([draftAsset ''a''], 1) \<and>
   (0::nat) < 1 \<and>
   upload_queue (metadataStorage (addMultipleToQueue [draftAsset ''a''] False storedService)) =
     Some (map id' [draftAsset ''a'']) \<and>
   inFlight uploadingService = Some ((draftAsset ''a'')\<lparr>status := Uploading\<rparr>) \<and>
   upload_queue (metadataStorage (processQueue_settled (Resolved sampleResult) ''t'' uploadingService)) =
     Some (map id' (uploadQueue uploadingService))"
proof -
  have h1: "id' (draftAsset ''a'') \<notin> id' ` set (uploadQueue storedService)"
    by (simp add: storedService_fields)
  have h2: "pushMissing [draftAsset ''a''] (uploadQueue storedService, 0) = ([draftAsset ''a''], 1)"
    by (simp add: storedService_fields)
  have h3: "(0::nat) < 1" by simp
  note t1 = queue_saved_before_next_upload_starts[of _ storedService "draftAsset ''a''" False
              "[draftAsset ''a'']" "[draftAsset ''a'']" 1]
  note t2 = queue_saved_before_next_upload_starts[of _ uploadingService
              "(draftAsset ''a'')\<lparr>status := Uploading\<rparr>" _ _ _ _ "Resolved sampleResult" "''t''"]
  from h1 h2 h3 t1 t2 uploadingService_inFlight show ?thesis by blast
qed

text \<open>
  The claim as stated fails: after the enqueue of \<open>a\<close> on an idle engine the persisted
  list is \<open>[a]\<close> and the in-memory queue is empty.
\<close>

theorem persisted_list_keeps_started_asset:
  "upload_queue (metadataStorage (addToQueue (draftAsset ''a'') False storedService)) = Some [''a''] \<and>
   map id' (uploadQueue (addToQueue (draftAsset ''a'') False storedService)) = []"
  by (simp add: storedService_def run_defs)

subsection \<open>Restoring the queue\<close>

lemma resolveAssets_lookups:
  "map Some (resolveAssets store ids) = filter (\<lambda>x. x \<noteq> None) (map store ids)"
  by (induction ids) (auto split: option.splits)

lemma restoreQueue_pending:
  assumes "restoring s = Some ids" "ids \<noteq> []"
  shows "restoreQueue s =
           processQueue (s\<lparr>restoring := None,
                           uploadQueue := resolveAssets (assetStorage s) ids\<rparr>)"
  using assms by (simp add: restoreQueue_def)

lemma processQueue_restoring [simp]: "restoring (processQueue t) = restoring t"
  by (cases "uploadQueue t") (simp_all add: start_defs)

lemma processQueue_inFlight_started:
  "\<not> isUploading t \<Longrightarrow> \<not> isPaused t \<Longrightarrow>
   inFlight (processQueue t) =
     (case uploadQueue t of [] \<Rightarrow> inFlight t | a # rest \<Rightarrow> Some (markedUploading a))"
  by (cases "uploadQueue t") (simp_all add: start_defs)

text \<open>
  C7. Restoration looks every persisted ID up in the blob store and keeps, in persisted
  order, exactly the look-ups that find an asset; an ID with no asset is passed over and
  nothing fails. When the restoration finishes, the assets kept become the in-memory queue
  and \<open>processQueue\<close> is called. At process start, with the persisted list \<open>ids\<close> and
  no call before the restoration has finished, draining resumes at once when the restored
  queue is not empty: its first asset is in flight, marked \<open>uploading\<close>, the others wait
  in the queue in order, and the service is not paused. When another call came first, the
  restored assets still replace the queue, and they are drained as soon as the engine is
  neither busy nor paused.
\<close>

theorem restore_skips_missing_and_resumes:
  "map Some (resolveAssets store ids) = filter (\<lambda>x. x \<noteq> None) (map store ids) \<and>
   (upload_queue local = Some ids \<longrightarrow>
      restoring (newUploadService store local) = Some ids \<and>
      uploadQueue (restoreQueue (newUploadService store local)) = tl (resolveAssets store ids) \<and>
      inFlight (restoreQueue (newUploadService store local)) =
        (case resolveAssets store ids of [] \<Rightarrow> None | a # rest \<Rightarrow> Some (markedUploading a)) \<and>
      isUploading (restoreQueue (newUploadService store local)) = (resolveAssets store ids \<noteq> []) \<and>
      \<not> isPaused (restoreQueue (newUploadService store local)) \<and>
      restoring (restoreQueue (newUploadService store local)) = None) \<and>
   (upload_queue local = None \<longrightarrow>
      uploadQueue (restoreQueue (newUploadService store local)) = [] \<and>
      \<not> isUploading (restoreQueue (newUploadService store local))) \<and>
   (restoring s = Some ids \<and> ids \<noteq> [] \<longrightarrow>
      uploadQueue (restoreQueue s) =
        (if isUploading s \<or> isPaused s then resolveAssets (assetStorage s) ids
         else tl (resolveAssets (assetStorage s) ids)) \<and>
      isUploading (restoreQueue s) =
        (isUploading s \<or> (\<not> isPaused s \<and> resolveAssets (assetStorage s) ids \<noteq> [])) \<and>
      restoring (restoreQueue s) = None)"
proof -
  let ?n = "newUploadService store local"
  let ?r = "resolveAssets store ids"
  have n: "uploadQueue ?n = []" "\<not> isUploading ?n" "\<not> isPaused ?n" "inFlight ?n = None"
    "assetStorage ?n = store"
    by (simp_all add: newUploadService_def)
  have d: "uploadQueue (restoreQueue s) =
        (if isUploading s \<or> isPaused s then resolveAssets (assetStorage s) ids
         else tl (resolveAssets (assetStorage s) ids)) \<and>
      isUploading (restoreQueue s) =
        (isUploading s \<or> (\<not> isPaused s \<and> resolveAssets (assetStorage s) ids \<noteq> [])) \<and>
      restoring (restoreQueue s) = None"
    if "restoring s = Some ids" "ids \<noteq> []" for s
    by (simp add: restoreQueue_pending[OF that] processQueue_queue processQueue_uploading)
  have b: "restoring ?n = Some ids \<and>
      uploadQueue (restoreQueue ?n) = tl ?r \<and>
      inFlight (restoreQueue ?n) = (case ?r of [] \<Rightarrow> None | a # rest \<Rightarrow> Some (markedUploading a)) \<and>
      isUploading (restoreQueue ?n) = (?r \<noteq> []) \<and>
      \<not> isPaused (restoreQueue ?n) \<and> restoring (restoreQueue ?n) = None"
    if u: "upload_queue local = Some ids"
  proof -
    from u have p: "restoring ?n = Some ids"
      by (simp add: newUploadService_def getUploadQueueIds_def)
    show ?thesis
    proof (cases "ids = []")
      case True
      with p show ?thesis by (simp add: restoreQueue_def n)
    next
      case False
      let ?t = "?n\<lparr>restoring := None, uploadQueue := ?r\<rparr>"
      have e: "restoreQueue ?n = processQueue ?t"
        using restoreQueue_pending[OF p False] by (simp add: n)
      have "inFlight (processQueue ?t) =
              (case ?r of [] \<Rightarrow> None | a # rest \<Rightarrow> Some (markedUploading a))"
        by (simp add: processQueue_inFlight_started n split: list.splits)
      with p show ?thesis
        by (simp add: e processQueue_queue processQueue_uploading processQueue_keeps n)
    qed
  qed
  have c: "uploadQueue (restoreQueue ?n) = [] \<and> \<not> isUploading (restoreQueue ?n)"
    if "upload_queue local = None"
    using that by (simp add: restoreQueue_def newUploadService_def getUploadQueueIds_def)
  from resolveAssets_lookups[of store ids] b c d[of s] show ?thesis by blast
qed

theorem restore_skips_missing_and_resumes_witness:
  "upload_queue (emptyLocal\<lparr>upload_queue := Some [''a'', ''b'', ''c'']\<rparr>) = Some [''a'', ''b'', ''c''] \<and>
   resolveAssets [''a'' \<mapsto> draftAsset ''a'', ''c'' \<mapsto> draftAsset ''c''] [''a'', ''b'', ''c''] =
     [draftAsset ''a'', draftAsset ''c''] \<and>
   uploadQueue (restoreQueue (newUploadService [''a'' \<mapsto> draftAsset ''a'', ''c'' \<mapsto> draftAsset ''c'']
                                (emptyLocal\<lparr>upload_queue := Some [''a'', ''b'', ''c'']\<rparr>))) =
     [draftAsset ''c''] \<and>
   inFlight (restoreQueue (newUploadService [''a'' \<mapsto> draftAsset ''a'', ''c'' \<mapsto> draftAsset ''c'']
                                (emptyLocal\<lparr>upload_queue := Some [''a'', ''b'', ''c'']\<rparr>))) =
     Some (markedUploading (draftAsset ''a'')) \<and>
   isUploading (restoreQueue (newUploadService [''a'' \<mapsto> draftAsset ''a'', ''c'' \<mapsto> draftAsset ''c'']
                                (emptyLocal\<lparr>upload_queue := Some [''a'', ''b'', ''c'']\<rparr>))) \<and>
   restoring lateRestore = Some [''a'', ''b''] \<and>
   isUploading lateRestore \<and>
   map id' (uploadQueue lateRestore) = [] \<and>
   map id' (uploadQueue (restoreQueue lateRestore)) = [''a'', ''b'']"
proof -
  let ?store = "[''a'' \<mapsto> draftAsset ''a'', ''c'' \<mapsto> draftAsset ''c'']"
  let ?local = "emptyLocal\<lparr>upload_queue := Some [''a'', ''b'', ''c'']\<rparr>"
  have h1: "upload_queue ?local = Some [''a'', ''b'', ''c'']" by simp
  have r: "resolveAssets ?store [''a'', ''b'', ''c''] = [draftAsset ''a'', draftAsset ''c'']"
    by simp
  have h2: "restoring lateRestore = Some [''a'', ''b'']" "isUploading lateRestore"
    "\<not> isPaused lateRestore" "uploadQueue lateRestore = []"
    "resolveAssets (assetStorage lateRestore) [''a'', ''b''] =
       [draftAsset ''a'', draftAsset ''b'']"
    by (simp_all add: lateRestore_def run_defs)
  note t1 = restore_skips_missing_and_resumes[of ?store "[''a'', ''b'', ''c'']" ?local]
  note t2 = restore_skips_missing_and_resumes[of _ "[''a'', ''b'']" _ lateRestore]
  let ?s = "restoreQueue (newUploadService ?store ?local)"
  from t1 h1 have "uploadQueue ?s = tl (resolveAssets ?store [''a'', ''b'', ''c''])"
    by blast
  with r have c1: "uploadQueue ?s = [draftAsset ''c'']" by simp
  from t1 h1 have "inFlight ?s =
      (case resolveAssets ?store [''a'', ''b'', ''c''] of
         [] \<Rightarrow> None | a # rest \<Rightarrow> Some (markedUploading a))"
    by blast
  with r have c2: "inFlight ?s = Some (markedUploading (draftAsset ''a''))" by simp
  from t1 h1 have "isUploading ?s = (resolveAssets ?store [''a'', ''b'', ''c''] \<noteq> [])"
    by blast
  with r have c3: "isUploading ?s" by simp
  have ne: "[''a'', ''b''] \<noteq> ([] :: string list)" by simp
  from t2 h2(1) ne have "uploadQueue (restoreQueue lateRestore) =
      (if isUploading lateRestore \<or> isPaused lateRestore
       then resolveAssets (assetStorage lateRestore) [''a'', ''b'']
       else tl (resolveAssets (assetStorage lateRestore) [''a'', ''b'']))"
    by blast
  with h2 have c4: "map id' (uploadQueue (restoreQueue lateRestore)) = [''a'', ''b'']"
    by (simp add: draftAsset_def)
  from h1 r c1 c2 c3 h2(1,2,4) c4 show ?thesis by simp
qed

subsection \<open>Order of uploads\<close>

lemma startedIds_append [simp]: "startedIds (a @ b) = startedIds a @ startedIds b"
  by (simp add: startedIds_def)

lemma uploadedIds_append [simp]: "uploadedIds (a @ b) = uploadedIds a @ uploadedIds b"
  by (simp add: uploadedIds_def)

lemma startedIds_simps [simp]:
  "startedIds [] = []" "startedIds (e # tr) = startedOf e @ startedIds tr"
  by (simp_all add: startedIds_def)

lemma uploadedIds_simps [simp]:
  "uploadedIds [] = []" "uploadedIds (e # tr) = uploadedOf e @ uploadedIds tr"
  by (simp_all add: uploadedIds_def)

lemma oneAtATime_append: "oneAtATime (a @ b) = foldl busyAfter (oneAtATime a) b"
  by (simp add: oneAtATime_def)







lemma unpaused_coherent [simp]: "coherent (t\<lparr>isPaused := b\<rparr>) = coherent t"
  by (simp add: coherent_def)

lemma requeued_coherent [simp]: "coherent (t\<lparr>uploadQueue := q\<rparr>) = coherent t"
  by (simp add: coherent_def)

lemma requeued_inFlightIds [simp]: "inFlightIds (t\<lparr>uploadQueue := q\<rparr>) = inFlightIds t"
  by (simp add: inFlightIds_def)

lemma unpaused_inFlightIds [simp]: "inFlightIds (t\<lparr>isPaused := b\<rparr>) = inFlightIds t"
  by (simp add: inFlightIds_def)





lemma saveQueue_trace [simp]:
  "trace (saveQueue t) = trace t @ [SetUploadQueueIds (map id' (uploadQueue t))]"
  by (simp add: saveQueue_def setUploadQueueIds_def)

lemma saveQueue_coherent [simp]: "coherent (saveQueue t) = coherent t"
  by (simp add: coherent_def oneAtATime_append)

lemma saveQueue_inFlightIds [simp]: "inFlightIds (saveQueue t) = inFlightIds t"
  by (simp add: inFlightIds_def)






text \<open>What the settling of the request does.\<close>

lemma handleUploadSuccess_trace:
  "trace (handleUploadSuccess a res now s) =
     trace s @
     [UpdateAsset (id' a) Uploaded
        ((metadata a)\<lparr>uploadedAt := Some now, cid := resultCid res,
                      nid := resultNid res, uploadProgress := Some 1\<rparr>),
      UPLOAD_PROGRESS (id' a) 1 Uploaded None, DeleteAsset (id' a), UPLOAD_COMPLETE (id' a)]"
  by (simp add: handleUploadSuccess_def updateAsset_def emitProgress_def deleteAsset_def
      emitCompletion_def Let_def)

lemma handleUploadError_trace:
  "trace (handleUploadError a err s) =
     trace s @ (if isInsufficientBalanceError err then [ClearDismissed] else []) @
     [UpdateAsset (id' a) Failed
        ((metadata a)\<lparr>error := Some (errorMessageOf err),
                      errorType := (if isInsufficientBalanceError err
                                    then Some ''insufficient_credits'' else None)\<rparr>),
      UPLOAD_PROGRESS (id' a) 0 Failed (Some (errorMessageOf err))]"
  by (simp add: error_defs)



lemma settledState_fields [simp]:
  "uploadQueue (settledState a r now s) = uploadQueue s"
  "\<not> isUploading (settledState a r now s)"
  "inFlight (settledState a r now s) = None"
  "isPaused (settledState a (Resolved res) now s) = isPaused s"
  by (cases r; simp add: settledState_def handleUploadError_queue)+

lemma settledState_started [simp]:
  "startedIds (trace (settledState a r now s)) = startedIds (trace s)"
  by (cases r) (simp_all add: settledState_def handleUploadSuccess_trace handleUploadError_trace)

lemma settledState_uploaded [simp]:
  "uploadedIds (trace (settledState a (Resolved res) now s)) = uploadedIds (trace s) @ [id' a]"
  by (simp add: settledState_def handleUploadSuccess_trace)











lemma isResolved_isSettled: "isResolved e \<Longrightarrow> isSettled e"
  by (cases e rule: isResolved.cases) simp_all


lemma restored_fields [simp]:
  "coherent (s\<lparr>restoring := x\<rparr>) = coherent s"
  "eager (s\<lparr>restoring := x\<rparr>) = eager s"
  "inFlightIds (s\<lparr>restoring := x\<rparr>) = inFlightIds s"
  by (simp_all add: coherent_def eager_def inFlightIds_def)








subsection \<open>The signed-metadata document\<close>

lemma sort_keys_base:
  "sort [''spec_version'', ''recorder'', ''created_at''] =
     [''created_at'', ''recorder'', ''spec_version'']"
  by code_simp

lemma sort_keys_gps:
  "sort [''spec_version'', ''recorder'', ''created_at'', ''location_latitude'',
         ''location_longitude''] =
     [''created_at'', ''location_latitude'', ''location_longitude'', ''recorder'',
      ''spec_version'']"
  by code_simp

lemma sort_keys_web:
  "sort [''spec_version'', ''recorder'', ''created_at'', ''web_source_url'',
         ''web_source_title''] =
     [''created_at'', ''recorder'', ''spec_version'', ''web_source_title'', ''web_source_url'']"
  by code_simp

lemma sort_keys_all:
  "sort [''spec_version'', ''recorder'', ''created_at'', ''location_latitude'',
         ''location_longitude'', ''web_source_url'', ''web_source_title''] =
     [''created_at'', ''location_latitude'', ''location_longitude'', ''recorder'',
      ''spec_version'', ''web_source_title'', ''web_source_url'']"
  by code_simp

lemma keys_in_order:
  "sorted [''created_at'', ''location_latitude'', ''location_longitude'', ''recorder'',
           ''spec_version'', ''web_source_title'', ''web_source_url'']"
  by code_simp

lemma signedMembers_explicit:
  "signedMembers asset =
     [(''created_at'', MNumber (createdAt asset))] @
     (case gpsLocation asset of
        None \<Rightarrow> []
      | Some g \<Rightarrow> [(''location_latitude'', MNumber (latitude g)),
                   (''location_longitude'', MNumber (longitude g))]) @
     [(''recorder'', MString ''ProofSnap Browser Extension''),
      (''spec_version'', MString ''2.0.0'')] @
     (case sourceWebsite asset of
        None \<Rightarrow> []
      | Some w \<Rightarrow> [(''web_source_title'', MString (title w)),
                   (''web_source_url'', MString (url w))])"
proof (cases "gpsLocation asset"; cases "sourceWebsite asset")
  assume "gpsLocation asset = None" "sourceWebsite asset = None"
  then show ?thesis
    by (simp add: signedMembers_def signedMetadataObject_def Object_keys_def sort_keys_base
        propertyList_def)
next
  fix w assume "gpsLocation asset = None" "sourceWebsite asset = Some w"
  then show ?thesis
    by (simp add: signedMembers_def signedMetadataObject_def Object_keys_def sort_keys_web
        propertyList_def)
next
  fix g assume "gpsLocation asset = Some g" "sourceWebsite asset = None"
  then show ?thesis
    by (simp add: signedMembers_def signedMetadataObject_def Object_keys_def sort_keys_gps
        propertyList_def)
next
  fix g w assume "gpsLocation asset = Some g" "sourceWebsite asset = Some w"
  then show ?thesis
    by (simp add: signedMembers_def signedMetadataObject_def Object_keys_def sort_keys_all
        propertyList_def)
qed

lemma signedMembers_keys:
  "map fst (signedMembers asset) =
     [''created_at''] @
     (if gpsLocation asset = None then [] else [''location_latitude'', ''location_longitude'']) @
     [''recorder'', ''spec_version''] @
     (if sourceWebsite asset = None then [] else [''web_source_title'', ''web_source_url''])"
  by (simp add: signedMembers_explicit split: option.splits)

lemma signedMembers_sorted:
  "sorted (map fst (signedMembers asset)) \<and> distinct (map fst (signedMembers asset))"
proof -
  let ?all = "[''created_at'', ''location_latitude'', ''location_longitude'', ''recorder'',
               ''spec_version'', ''web_source_title'', ''web_source_url'']"
  let ?keep = "\<lambda>k. (gpsLocation asset \<noteq> None \<or> k \<notin> {''location_latitude'', ''location_longitude''}) \<and>
                    (sourceWebsite asset \<noteq> None \<or> k \<notin> {''web_source_title'', ''web_source_url''})"
  have f: "map fst (signedMembers asset) = filter ?keep ?all"
    by (simp add: signedMembers_keys)
  have d: "distinct ?all" by simp
  from keys_in_order have "sorted (filter ?keep ?all)" by (rule sorted_wrt_filter)
  moreover from d have "distinct (filter ?keep ?all)" by (rule distinct_filter)
  ultimately show ?thesis unfolding f by blast
qed

lemma quote_plain: "list_all plainChar str \<Longrightarrow> quoteJSONString str = quoted str"
proof -
  have "concat (map quoteChar str) = str" if "list_all plainChar str"
    using that
  proof (induction str)
    case Nil
    then show ?case by simp
  next
    case (Cons c cs)
    from Cons.prems have "quoteChar c = [c]"
      by (simp add: plainChar_def quoteChar_def Let_def)
    with Cons show ?case by simp
  qed
  then show "list_all plainChar str \<Longrightarrow> quoteJSONString str = quoted str"
    by (simp add: quoteJSONString_def quoted_def)
qed

lemma quote_literals:
  "quoteJSONString ''created_at'' = quoted ''created_at''"
  "quoteJSONString ''location_latitude'' = quoted ''location_latitude''"
  "quoteJSONString ''location_longitude'' = quoted ''location_longitude''"
  "quoteJSONString ''recorder'' = quoted ''recorder''"
  "quoteJSONString ''spec_version'' = quoted ''spec_version''"
  "quoteJSONString ''web_source_title'' = quoted ''web_source_title''"
  "quoteJSONString ''web_source_url'' = quoted ''web_source_url''"
  "quoteJSONString ''ProofSnap Browser Extension'' = quoted ''ProofSnap Browser Extension''"
  "quoteJSONString ''2.0.0'' = quoted ''2.0.0''"
  by code_simp+

lemma quote_title:
  "quoteJSONString (''The '' @ [CHR 0x22] @ ''Example'' @ [CHR 0x22] @ '' page'') =
     [CHR 0x22] @ ''The '' @ [CHR 0x5C, CHR 0x22] @ ''Example'' @ [CHR 0x5C, CHR 0x22] @
     '' page'' @ [CHR 0x22]"
  by code_simp

lemma quote_url: "quoteJSONString ''https://example.com/a'' = quoted ''https://example.com/a''"
  by code_simp

lemma createSignedMetadata_printed:
  "createSignedMetadata numberToString asset = printObject numberToString (signedMembers asset)"
  by (simp add: createSignedMetadata_def JSON_stringify_def signedMembers_def Let_def)

lemma document_explicit:
  "createSignedMetadata numberToString asset =
     ''{'' @ memberLine ''created_at'' (numberToString (createdAt asset)) @
     (case gpsLocation asset of
        None \<Rightarrow> []
      | Some g \<Rightarrow>
          '','' @ memberLine ''location_latitude'' (numberToString (latitude g)) @
          '','' @ memberLine ''location_longitude'' (numberToString (longitude g))) @
     '','' @ memberLine ''recorder'' (quoted ''ProofSnap Browser Extension'') @
     '','' @ memberLine ''spec_version'' (quoted ''2.0.0'') @
     (case sourceWebsite asset of
        None \<Rightarrow> []
      | Some w \<Rightarrow>
          '','' @ memberLine ''web_source_title'' (quoteJSONString (title w)) @
          '','' @ memberLine ''web_source_url'' (quoteJSONString (url w))) @
     [CHR 0x0A] @ ''}''"
  by (cases "gpsLocation asset"; cases "sourceWebsite asset")
     (simp_all add: createSignedMetadata_printed signedMembers_explicit printObject_def
        printMember_def serializeValue_def memberLine_def quote_literals)

text \<open>
  C8. The document is the text written out below: an opening brace, one line for each
  member, and a closing brace on a line of its own. The members come in the sorted order
  of their keys: \<open>created_at\<close>, \<open>recorder\<close> and \<open>spec_version\<close> always, the two
  location members exactly when the asset has a location, the two web-source members
  exactly when it has a source page. Strings are printed in quotes, with quotes,
  backslashes and control characters escaped and every other character as it stands. The
  document is a function of the creation time, the latitude and longitude, and the URL and
  title of the source page, and of nothing else in the asset: two assets that agree on
  these give the same text, byte for byte.
\<close>

theorem signed_metadata_sorted_and_determined:
  "createSignedMetadata numberToString asset =
     ''{'' @ memberLine ''created_at'' (numberToString (createdAt asset)) @
     (case gpsLocation asset of
        None \<Rightarrow> []
      | Some g \<Rightarrow>
          '','' @ memberLine ''location_latitude'' (numberToString (latitude g)) @
          '','' @ memberLine ''location_longitude'' (numberToString (longitude g))) @
     '','' @ memberLine ''recorder'' (quoted ''ProofSnap Browser Extension'') @
     '','' @ memberLine ''spec_version'' (quoted ''2.0.0'') @
     (case sourceWebsite asset of
        None \<Rightarrow> []
      | Some w \<Rightarrow>
          '','' @ memberLine ''web_source_title'' (quoteJSONString (title w)) @
          '','' @ memberLine ''web_source_url'' (quoteJSONString (url w))) @
     [CHR 0x0A] @ ''}'' \<and>
   (list_all plainChar str \<longrightarrow> quoteJSONString str = quoted str) \<and>
   quoteJSONString (pre @ [CHR 0x22] @ post) =
     [CHR 0x22] @ concat (map quoteChar pre) @ [CHR 0x5C, CHR 0x22] @
     concat (map quoteChar post) @ [CHR 0x22] \<and>
   createSignedMetadata numberToString asset = printObject numberToString (signedMembers asset) \<and>
   signedMembers asset =
     [(''created_at'', MNumber (createdAt asset))] @
     (case gpsLocation asset of
        None \<Rightarrow> []
      | Some g \<Rightarrow> [(''location_latitude'', MNumber (latitude g)),
                   (''location_longitude'', MNumber (longitude g))]) @
     [(''recorder'', MString ''ProofSnap Browser Extension''),
      (''spec_version'', MString ''2.0.0'')] @
     (case sourceWebsite asset of
        None \<Rightarrow> []
      | Some w \<Rightarrow> [(''web_source_title'', MString (title w)),
                   (''web_source_url'', MString (url w))]) \<and>
   sorted (map fst (signedMembers asset)) \<and> distinct (map fst (signedMembers asset)) \<and>
   (createdAt asset = createdAt other \<and>
    map_option (\<lambda>g. (latitude g, longitude g)) (gpsLocation asset) =
      map_option (\<lambda>g. (latitude g, longitude g)) (gpsLocation other) \<and>
    map_option (\<lambda>w. (url w, title w)) (sourceWebsite asset) =
      map_option (\<lambda>w. (url w, title w)) (sourceWebsite other) \<longrightarrow>
    createSignedMetadata numberToString asset = createSignedMetadata numberToString other)"
proof -
  have q: "quoteJSONString (pre @ [CHR 0x22] @ post) =
     [CHR 0x22] @ concat (map quoteChar pre) @ [CHR 0x5C, CHR 0x22] @
     concat (map quoteChar post) @ [CHR 0x22]"
    by (simp add: quoteJSONString_def quoteChar_def)
  have e: "signedMembers asset = signedMembers other"
    if "createdAt asset = createdAt other"
       "map_option (\<lambda>g. (latitude g, longitude g)) (gpsLocation asset) =
          map_option (\<lambda>g. (latitude g, longitude g)) (gpsLocation other)"
       "map_option (\<lambda>w. (url w, title w)) (sourceWebsite asset) =
          map_option (\<lambda>w. (url w, title w)) (sourceWebsite other)"
    using that
    by (cases "gpsLocation asset"; cases "gpsLocation other";
        cases "sourceWebsite asset"; cases "sourceWebsite other")
       (simp_all add: signedMembers_explicit)
  have d: "createSignedMetadata numberToString asset = createSignedMetadata numberToString other"
    if "createdAt asset = createdAt other"
       "map_option (\<lambda>g. (latitude g, longitude g)) (gpsLocation asset) =
          map_option (\<lambda>g. (latitude g, longitude g)) (gpsLocation other)"
       "map_option (\<lambda>w. (url w, title w)) (sourceWebsite asset) =
          map_option (\<lambda>w. (url w, title w)) (sourceWebsite other)"
    using e[OF that] by (simp add: createSignedMetadata_printed)
  from document_explicit[of numberToString asset] quote_plain[of str] q
    createSignedMetadata_printed[of numberToString asset] signedMembers_explicit[of asset]
    signedMembers_sorted[of asset] d
  show ?thesis by blast
qed

theorem signed_metadata_sorted_and_determined_witness:
  "createSignedMetadata printNumber locatedAsset =
     ''{'' @ [CHR 0x0A] @ ''  '' @ [CHR 0x22] @ ''created_at'' @ [CHR 0x22] @
     '': 1700000000000,'' @ [CHR 0x0A] @ ''  '' @ [CHR 0x22] @ ''location_latitude'' @
     [CHR 0x22] @ '': 25.5,'' @ [CHR 0x0A] @ ''  '' @ [CHR 0x22] @ ''location_longitude'' @
     [CHR 0x22] @ '': 121.25,'' @ [CHR 0x0A] @ ''  '' @ [CHR 0x22] @ ''recorder'' @
     [CHR 0x22] @ '': '' @ [CHR 0x22] @ ''ProofSnap Browser Extension'' @ [CHR 0x22] @
     '','' @ [CHR 0x0A] @ ''  '' @ [CHR 0x22] @ ''spec_version'' @ [CHR 0x22] @ '': '' @
     [CHR 0x22] @ ''2.0.0'' @ [CHR 0x22] @ '','' @ [CHR 0x0A] @ ''  '' @ [CHR 0x22] @
     ''web_source_title'' @ [CHR 0x22] @ '': '' @ [CHR 0x22] @ ''The '' @
     [CHR 0x5C, CHR 0x22] @ ''Example'' @ [CHR 0x5C, CHR 0x22] @ '' page'' @ [CHR 0x22] @
     '','' @ [CHR 0x0A] @ ''  '' @ [CHR 0x22] @ ''web_source_url'' @ [CHR 0x22] @ '': '' @
     [CHR 0x22] @ ''https://example.com/a'' @ [CHR 0x22, CHR 0x0A] @ ''}'' \<and>
   list_all plainChar ''2.0.0'' \<and>
   quoteJSONString ''2.0.0'' = [CHR 0x22] @ ''2.0.0'' @ [CHR 0x22] \<and>
   createdAt locatedAsset = createdAt (locatedAsset\<lparr>status := Uploaded, uri := []\<rparr>) \<and>
   map_option (\<lambda>g. (latitude g, longitude g)) (gpsLocation locatedAsset) =
     map_option (\<lambda>g. (latitude g, longitude g))
       (gpsLocation (locatedAsset\<lparr>status := Uploaded, uri := []\<rparr>)) \<and>
   map_option (\<lambda>w. (url w, title w)) (sourceWebsite locatedAsset) =
     map_option (\<lambda>w. (url w, title w))
       (sourceWebsite (locatedAsset\<lparr>status := Uploaded, uri := []\<rparr>)) \<and>
   createSignedMetadata printNumber locatedAsset =
     createSignedMetadata printNumber (locatedAsset\<lparr>status := Uploaded, uri := []\<rparr>)"
proof -
  note t = signed_metadata_sorted_and_determined[of printNumber locatedAsset "''2.0.0''" _ _
             "locatedAsset\<lparr>status := Uploaded, uri := []\<rparr>"]
  have f: "createdAt locatedAsset = 1700000000000"
    "gpsLocation locatedAsset =
       Some \<lparr>latitude = 25.5, longitude = 121.25, accuracy = 10, timestamp = 1700000000000\<rparr>"
    "sourceWebsite locatedAsset =
       Some \<lparr>url = ''https://example.com/a'',
             title = ''The '' @ [CHR 0x22] @ ''Example'' @ [CHR 0x22] @ '' page''\<rparr>"
    by (simp_all add: locatedAsset_def draftAsset_def)
  from t have a: "createSignedMetadata printNumber locatedAsset =
     ''{'' @ memberLine ''created_at'' (printNumber (createdAt locatedAsset)) @
     (case gpsLocation locatedAsset of
        None \<Rightarrow> []
      | Some g \<Rightarrow>
          '','' @ memberLine ''location_latitude'' (printNumber (latitude g)) @
          '','' @ memberLine ''location_longitude'' (printNumber (longitude g))) @
     '','' @ memberLine ''recorder'' (quoted ''ProofSnap Browser Extension'') @
     '','' @ memberLine ''spec_version'' (quoted ''2.0.0'') @
     (case sourceWebsite locatedAsset of
        None \<Rightarrow> []
      | Some w \<Rightarrow>
          '','' @ memberLine ''web_source_title'' (quoteJSONString (title w)) @
          '','' @ memberLine ''web_source_url'' (quoteJSONString (url w))) @
     [CHR 0x0A] @ ''}''"
    by blast
  have r: "
     ''{'' @ memberLine ''created_at'' (printNumber (createdAt locatedAsset)) @
     (case gpsLocation locatedAsset of
        None \<Rightarrow> []
      | Some g \<Rightarrow>
          '','' @ memberLine ''location_latitude'' (printNumber (latitude g)) @
          '','' @ memberLine ''location_longitude'' (printNumber (longitude g))) @
     '','' @ memberLine ''recorder'' (quoted ''ProofSnap Browser Extension'') @
     '','' @ memberLine ''spec_version'' (quoted ''2.0.0'') @
     (case sourceWebsite locatedAsset of
        None \<Rightarrow> []
      | Some w \<Rightarrow>
          '','' @ memberLine ''web_source_title'' (quoteJSONString (title w)) @
          '','' @ memberLine ''web_source_url'' (quoteJSONString (url w))) @
     [CHR 0x0A] @ ''}'' =
     ''{'' @ [CHR 0x0A] @ ''  '' @ [CHR 0x22] @ ''created_at'' @ [CHR 0x22] @
     '': 1700000000000,'' @ [CHR 0x0A] @ ''  '' @ [CHR 0x22] @ ''location_latitude'' @
     [CHR 0x22] @ '': 25.5,'' @ [CHR 0x0A] @ ''  '' @ [CHR 0x22] @ ''location_longitude'' @
     [CHR 0x22] @ '': 121.25,'' @ [CHR 0x0A] @ ''  '' @ [CHR 0x22] @ ''recorder'' @
     [CHR 0x22] @ '': '' @ [CHR 0x22] @ ''ProofSnap Browser Extension'' @ [CHR 0x22] @
     '','' @ [CHR 0x0A] @ ''  '' @ [CHR 0x22] @ ''spec_version'' @ [CHR 0x22] @ '': '' @
     [CHR 0x22] @ ''2.0.0'' @ [CHR 0x22] @ '','' @ [CHR 0x0A] @ ''  '' @ [CHR 0x22] @
     ''web_source_title'' @ [CHR 0x22] @ '': '' @ [CHR 0x22] @ ''The '' @
     [CHR 0x5C, CHR 0x22] @ ''Example'' @ [CHR 0x5C, CHR 0x22] @ '' page'' @ [CHR 0x22] @
     '','' @ [CHR 0x0A] @ ''  '' @ [CHR 0x22] @ ''web_source_url'' @ [CHR 0x22] @ '': '' @
     [CHR 0x22] @ ''https://example.com/a'' @ [CHR 0x22, CHR 0x0A] @ ''}''"
    by (simp add: f printNumber_def memberLine_def quoted_def quote_title[simplified] quote_url)
  from a r have c1: "createSignedMetadata printNumber locatedAsset =
     ''{'' @ [CHR 0x0A] @ ''  '' @ [CHR 0x22] @ ''created_at'' @ [CHR 0x22] @
     '': 1700000000000,'' @ [CHR 0x0A] @ ''  '' @ [CHR 0x22] @ ''location_latitude'' @
     [CHR 0x22] @ '': 25.5,'' @ [CHR 0x0A] @ ''  '' @ [CHR 0x22] @ ''location_longitude'' @
     [CHR 0x22] @ '': 121.25,'' @ [CHR 0x0A] @ ''  '' @ [CHR 0x22] @ ''recorder'' @
     [CHR 0x22] @ '': '' @ [CHR 0x22] @ ''ProofSnap Browser Extension'' @ [CHR 0x22] @
     '','' @ [CHR 0x0A] @ ''  '' @ [CHR 0x22] @ ''spec_version'' @ [CHR 0x22] @ '': '' @
     [CHR 0x22] @ ''2.0.0'' @ [CHR 0x22] @ '','' @ [CHR 0x0A] @ ''  '' @ [CHR 0x22] @
     ''web_source_title'' @ [CHR 0x22] @ '': '' @ [CHR 0x22] @ ''The '' @
     [CHR 0x5C, CHR 0x22] @ ''Example'' @ [CHR 0x5C, CHR 0x22] @ '' page'' @ [CHR 0x22] @
     '','' @ [CHR 0x0A] @ ''  '' @ [CHR 0x22] @ ''web_source_url'' @ [CHR 0x22] @ '': '' @
     [CHR 0x22] @ ''https://example.com/a'' @ [CHR 0x22, CHR 0x0A] @ ''}''"
    by (rule trans)
  have p: "list_all plainChar ''2.0.0''" by (simp add: plainChar_def)
  with t have "quoteJSONString ''2.0.0'' = quoted ''2.0.0''" by blast
  then have c2: "quoteJSONString ''2.0.0'' = [CHR 0x22] @ ''2.0.0'' @ [CHR 0x22]"
    by (simp add: quoted_def)
  have h: "createdAt locatedAsset = createdAt (locatedAsset\<lparr>status := Uploaded, uri := []\<rparr>)"
    "map_option (\<lambda>g. (latitude g, longitude g)) (gpsLocation locatedAsset) =
     map_option (\<lambda>g. (latitude g, longitude g))
       (gpsLocation (locatedAsset\<lparr>status := Uploaded, uri := []\<rparr>))"
    "map_option (\<lambda>w. (url w, title w)) (sourceWebsite locatedAsset) =
     map_option (\<lambda>w. (url w, title w))
       (sourceWebsite (locatedAsset\<lparr>status := Uploaded, uri := []\<rparr>))"
    by simp_all
  with t have c3: "createSignedMetadata printNumber locatedAsset =
     createSignedMetadata printNumber (locatedAsset\<lparr>status := Uploaded, uri := []\<rparr>)"
    by blast
  from c1 p c2 h c3 show ?thesis by blast
qed

subsection \<open>Reading the settings\<close>

lemma defaults_populated: "\<forall>k\<in>set settingsFields. DEFAULT_SETTINGS k \<noteq> None"
  by (simp add: settingsFields_def DEFAULT_SETTINGS_def)

lemma defaults_domain: "dom DEFAULT_SETTINGS = set settingsFields"
  by (auto simp: settingsFields_def DEFAULT_SETTINGS_def dom_def split: if_splits)

lemma onlyAutoUpload_merged:
  "getSettings JSON_parse_examples (emptyLocal\<lparr>user_settings := Some onlyAutoUploadText\<rparr>) =
     Inr (DEFAULT_SETTINGS(''autoUpload'' \<mapsto> JBool False))"
  by (auto simp: getSettings_def truthy_def JSON_parse_examples_def onlyAutoUploadText_def
      ownProperties_def map_add_def)

text \<open>
  C9, as the code has it. With no stored record, or an empty one, the read returns the
  defaults. With a stored record that \<open>JSON.parse\<close> accepts, the read returns the defaults
  overridden by the properties of the parsed value: every settings field is populated, a
  saved property has its saved value, every other field has its default. With a stored
  record that \<open>JSON.parse\<close> rejects, the read fails with the parse error; there is no
  fallback to the defaults.
\<close>

theorem settings_defaults_merged:
  "(\<not> truthy (user_settings st) \<longrightarrow> getSettings JSON_parse st = Inr DEFAULT_SETTINGS) \<and>
   (\<forall>k\<in>set settingsFields. DEFAULT_SETTINGS k \<noteq> None) \<and>
   (user_settings st = Some raw \<and> raw \<noteq> [] \<and> JSON_parse raw = Some saved \<longrightarrow>
      (\<exists>settings. getSettings JSON_parse st = Inr settings \<and>
         (\<forall>k\<in>set settingsFields. settings k \<noteq> None) \<and>
         (\<forall>k v. ownProperties saved k = Some v \<longrightarrow> settings k = Some v) \<and>
         (\<forall>k. ownProperties saved k = None \<longrightarrow> settings k = DEFAULT_SETTINGS k))) \<and>
   (user_settings st = Some raw \<and> raw \<noteq> [] \<and> JSON_parse raw = None \<longrightarrow>
      getSettings JSON_parse st = Inl SyntaxError)"
proof -
  have 1: "getSettings JSON_parse st = Inr DEFAULT_SETTINGS" if "\<not> truthy (user_settings st)"
    using that by (simp add: getSettings_def)
  have 3: "\<exists>settings. getSettings JSON_parse st = Inr settings \<and>
         (\<forall>k\<in>set settingsFields. settings k \<noteq> None) \<and>
         (\<forall>k v. ownProperties saved k = Some v \<longrightarrow> settings k = Some v) \<and>
         (\<forall>k. ownProperties saved k = None \<longrightarrow> settings k = DEFAULT_SETTINGS k)"
    if h: "user_settings st = Some raw" "raw \<noteq> []" "JSON_parse raw = Some saved"
  proof -
    let ?r = "DEFAULT_SETTINGS ++ ownProperties saved"
    from h have g: "getSettings JSON_parse st = Inr ?r"
      by (simp add: getSettings_def truthy_def)
    have a: "\<forall>k\<in>set settingsFields. ?r k \<noteq> None"
      using defaults_populated by (auto simp: map_add_def split: option.splits)
    have b: "\<forall>k v. ownProperties saved k = Some v \<longrightarrow> ?r k = Some v"
      by (simp add: map_add_def)
    have c: "\<forall>k. ownProperties saved k = None \<longrightarrow> ?r k = DEFAULT_SETTINGS k"
      by (simp add: map_add_def)
    from g a b c show ?thesis by blast
  qed
  have 4: "getSettings JSON_parse st = Inl SyntaxError"
    if "user_settings st = Some raw" "raw \<noteq> []" "JSON_parse raw = None"
    using that by (simp add: getSettings_def truthy_def)
  from 1 defaults_populated 3 4 show ?thesis by blast
qed

theorem settings_defaults_merged_witness:
  "\<not> truthy (user_settings emptyLocal) \<and>
   getSettings JSON_parse_examples emptyLocal = Inr DEFAULT_SETTINGS \<and>
   user_settings (emptyLocal\<lparr>user_settings := Some onlyAutoUploadText\<rparr>) = Some onlyAutoUploadText \<and>
   onlyAutoUploadText \<noteq> [] \<and>
   JSON_parse_examples onlyAutoUploadText = Some (JObject [(''autoUpload'', JBool False)]) \<and>
   ownProperties (JObject [(''autoUpload'', JBool False)]) ''autoUpload'' = Some (JBool False) \<and>
   ownProperties (JObject [(''autoUpload'', JBool False)]) ''screenshotQuality'' = None \<and>
   ''screenshotQuality'' \<in> set settingsFields \<and>
   (\<exists>settings.
      getSettings JSON_parse_examples (emptyLocal\<lparr>user_settings := Some onlyAutoUploadText\<rparr>) =
        Inr settings \<and>
      settings ''autoUpload'' = Some (JBool False) \<and>
      settings ''screenshotQuality'' = Some (JNumber 90) \<and>
      settings ''screenshotQuality'' \<noteq> None) \<and>
   user_settings (emptyLocal\<lparr>user_settings := Some damagedText\<rparr>) = Some damagedText \<and>
   damagedText \<noteq> [] \<and> JSON_parse_examples damagedText = None \<and>
   getSettings JSON_parse_examples (emptyLocal\<lparr>user_settings := Some damagedText\<rparr>) =
     Inl SyntaxError"
proof -
  have h1: "\<not> truthy (user_settings emptyLocal)"
    by (simp add: truthy_def emptyLocal_def)
  have h2: "user_settings (emptyLocal\<lparr>user_settings := Some onlyAutoUploadText\<rparr>) = Some onlyAutoUploadText"
    "onlyAutoUploadText \<noteq> []"
    "JSON_parse_examples onlyAutoUploadText = Some (JObject [(''autoUpload'', JBool False)])"
    by (simp_all add: JSON_parse_examples_def onlyAutoUploadText_def)
  have h3: "ownProperties (JObject [(''autoUpload'', JBool False)]) ''autoUpload'' = Some (JBool False)"
    "ownProperties (JObject [(''autoUpload'', JBool False)]) ''screenshotQuality'' = None"
    "''screenshotQuality'' \<in> set settingsFields"
    "DEFAULT_SETTINGS ''screenshotQuality'' = Some (JNumber 90)"
    by (simp_all add: ownProperties_def settingsFields_def DEFAULT_SETTINGS_def)
  have h4: "user_settings (emptyLocal\<lparr>user_settings := Some damagedText\<rparr>) = Some damagedText"
    "damagedText \<noteq> []" "JSON_parse_examples damagedText = None"
    by (simp_all add: JSON_parse_examples_def onlyAutoUploadText_def damagedText_def)
  note t1 = settings_defaults_merged[of emptyLocal JSON_parse_examples]
  note t2 = settings_defaults_merged[of "emptyLocal\<lparr>user_settings := Some onlyAutoUploadText\<rparr>"
              JSON_parse_examples onlyAutoUploadText "JObject [(''autoUpload'', JBool False)]"]
  note t3 = settings_defaults_merged[of "emptyLocal\<lparr>user_settings := Some damagedText\<rparr>"
              JSON_parse_examples damagedText]
  from t1 h1 have c1: "getSettings JSON_parse_examples emptyLocal = Inr DEFAULT_SETTINGS" by blast
  from t2 h2 obtain settings where
    s: "getSettings JSON_parse_examples (emptyLocal\<lparr>user_settings := Some onlyAutoUploadText\<rparr>) =
          Inr settings"
       "\<forall>k\<in>set settingsFields. settings k \<noteq> None"
       "\<forall>k v. ownProperties (JObject [(''autoUpload'', JBool False)]) k = Some v \<longrightarrow> settings k = Some v"
       "\<forall>k. ownProperties (JObject [(''autoUpload'', JBool False)]) k = None \<longrightarrow>
            settings k = DEFAULT_SETTINGS k"
    by blast
  from s(3) h3(1) have c2: "settings ''autoUpload'' = Some (JBool False)" by blast
  from s(4) h3(2,4) have c3: "settings ''screenshotQuality'' = Some (JNumber 90)" by simp
  from s(2) h3(3) have c4: "settings ''screenshotQuality'' \<noteq> None" by blast
  from t3 h4 have c5: "getSettings JSON_parse_examples
      (emptyLocal\<lparr>user_settings := Some damagedText\<rparr>) = Inl SyntaxError" by blast
  from h1 c1 h2 h3(1-3) s(1) c2 c3 c4 h4 c5 show ?thesis by blast
qed

text \<open>
  The claim as stated fails on a damaged record: the read does not fall back to the
  defaults, it fails.
\<close>

theorem damaged_settings_read_fails:
  "getSettings JSON_parse_examples (emptyLocal\<lparr>user_settings := Some damagedText\<rparr>) =
     Inl SyntaxError \<and>
   getSettings JSON_parse_examples (emptyLocal\<lparr>user_settings := Some damagedText\<rparr>) \<noteq>
     Inr DEFAULT_SETTINGS"
  by (simp add: getSettings_def truthy_def JSON_parse_examples_def onlyAutoUploadText_def
      damagedText_def)

subsection \<open>A selection that is too small\<close>


lemma handleMouseUp_large:
  assumes "isSelecting ov"
    and "10 \<le> \<bar>clientX e - startX ov\<bar>" "10 \<le> \<bar>clientY e - startY ov\<bar>"
  shows "\<exists>coordinates viewport.
           snd (handleMouseUp devicePixelRatio e ov) = Some (SelectionRegion coordinates viewport)"
  using assms by (simp add: handleMouseUp_def Let_def)




subsection \<open>A scenario\<close>

text \<open>
  \<open>a\<close> and \<open>b\<close> are enqueued; the upload of \<open>a\<close> succeeds and the upload of \<open>b\<close>
  fails for lack of credits. Then \<open>a\<close> is gone from the blob store, \<open>b\<close> is stored as
  \<open>failed\<close> with \<open>errorType\<close> \<open>insufficient_credits\<close>, and the engine is paused.
\<close>

lemma success_then_insufficient_credits:
  "assetStorage (run storedService
       [Enqueue (draftAsset ''a'') False, Enqueue (draftAsset ''b'') False,
        Settled (Resolved sampleResult) ''t1'',
        Settled (Rejected insufficientError) ''t2'']) ''a'' = None \<and>
   map_option status (assetStorage (run storedService
       [Enqueue (draftAsset ''a'') False, Enqueue (draftAsset ''b'') False,
        Settled (Resolved sampleResult) ''t1'',
        Settled (Rejected insufficientError) ''t2'']) ''b'') = Some Failed \<and>
   map_option (errorType \<circ> metadata) (assetStorage (run storedService
       [Enqueue (draftAsset ''a'') False, Enqueue (draftAsset ''b'') False,
        Settled (Resolved sampleResult) ''t1'',
        Settled (Rejected insufficientError) ''t2'']) ''b'') =
     Some (Some ''insufficient_credits'') \<and>
   isPaused (run storedService
       [Enqueue (draftAsset ''a'') False, Enqueue (draftAsset ''b'') False,
        Settled (Resolved sampleResult) ''t1'',
        Settled (Rejected insufficientError) ''t2''])"
  using insufficientError_is
  by (simp add: storedService_def run_def addToQueue_def processQueue_settled_def
      handleUploadError_def handleUploadSuccess_def errorMessageOf_def setPaused_def
      clearInsufficientCreditsNotificationDismissed_def deleteAsset_def emitCompletion_def
      saveQueue_def setUploadQueueIds_def maybeUnpauseForManualRetry_def
      newUploadService_def restoreQueue_def getUploadQueueIds_def truthy_def start_defs
      draftAsset_def emptyLocal_def emptyMetadata_def)

end
